theory Spec2Isabelle
  imports Complex_Main
begin

section \<open>Data model of \<open>logic.py\<close>\<close>

text \<open>
  Python floats are idealised as real numbers and Python integers are \<open>int\<close>.
  \<open>Ball\<close> objects are mutable and shared between the list of active balls, the
  inventory and the dragged reference, so they live in an explicit store that maps
  references (natural numbers) to ball values; the lists hold references.
  \<open>Color\<close> objects are never mutated in place, so they are plain values.
  Names are those of the source; the leading underscore of a private method is dropped,
  the field \<open>id\<close> is \<open>ball_id\<close>, and the constructors are \<open>Color_init\<close>,
  \<open>Ball_init\<close> and \<open>GameLogic_init\<close>. The bodies of the loops of \<open>update\<close> and
  \<open>_check_collisions\<close> are \<open>update_ball\<close> and \<open>collide\<close>. The statement at the end
  of \<open>update\<close> that only passes is left out.
\<close>

datatype BallState = FREE | IN_INVENTORY | BEING_DRAGGED

record Color =
  r :: int
  g :: int
  b :: int

text \<open>The constructor of \<open>Color\<close> with its \<open>__post_init__\<close>: each channel is clamped.\<close>

definition Color_init :: "int \<Rightarrow> int \<Rightarrow> int \<Rightarrow> Color" where
  "Color_init r0 g0 b0 =
     \<lparr>r = max 0 (min 255 r0), g = max 0 (min 255 g0), b = max 0 (min 255 b0)\<rparr>"

text \<open>Python's \<open>int(v)\<close> on a float: truncation towards zero.\<close>

definition int_trunc :: "real \<Rightarrow> int" where
  "int_trunc v = (if 0 \<le> v then \<lfloor>v\<rfloor> else \<lceil>v\<rceil>)"

definition mix_with :: "Color \<Rightarrow> Color \<Rightarrow> Color" where
  "mix_with self other =
     Color_init (int_trunc (real_of_int (r self + r other) / 2))
                (int_trunc (real_of_int (g self + g other) / 2))
                (int_trunc (real_of_int (b self + b other) / 2))"

definition get_brightness :: "Color \<Rightarrow> real" where
  "get_brightness self = real_of_int (r self + g self + b self) / (3 * 255)"

definition is_white :: "Color \<Rightarrow> bool" where
  "is_white self = (r self > 200 \<and> g self > 200 \<and> b self > 200)"

definition get_saturation :: "Color \<Rightarrow> real" where
  "get_saturation self =
     (let max_component = max (max (r self) (g self)) (b self);
          min_component = min (min (r self) (g self)) (b self)
      in if max_component > 0 then real_of_int (max_component - min_component) / 255 else 0)"

type_synonym ref = nat

record Ball =
  x :: real
  y :: real
  vx :: real
  vy :: real
  radius :: real
  color :: Color
  state :: BallState
  ball_id :: int

datatype error = ValueError | ZeroDivisionError

text \<open>
  The random generator is modelled by its draws, which are arguments of the operations
  that use it. \<open>random.randint(lo, hi)\<close> returns an integer of \<open>[lo, hi]\<close> chosen by
  the draw \<open>k\<close>; \<open>random.uniform(lo, hi)\<close> is \<open>lo + (hi - lo) * random()\<close>, where
  the unit draw \<open>u\<close> stands for \<open>random()\<close>.
\<close>

definition randint :: "int \<Rightarrow> int \<Rightarrow> int \<Rightarrow> int" where
  "randint lo hi k = lo + k mod (hi - lo + 1)"

definition uniform :: "real \<Rightarrow> real \<Rightarrow> real \<Rightarrow> real" where
  "uniform lo hi u = lo + (hi - lo) * u"

text \<open>The constructor of \<open>Ball\<close> with its \<open>__post_init__\<close>; \<open>k\<close> is the draw for the id.\<close>

definition Ball_init ::
  "real \<Rightarrow> real \<Rightarrow> real \<Rightarrow> real \<Rightarrow> real \<Rightarrow> Color \<Rightarrow> BallState \<Rightarrow> int \<Rightarrow> int \<Rightarrow> Ball" where
  "Ball_init x0 y0 vx0 vy0 radius0 color0 state0 id0 k =
     \<lparr>x = x0, y = y0, vx = vx0, vy = vy0, radius = radius0, color = color0, state = state0,
      ball_id = (if id0 = 0 then randint 1000 9999 k else id0)\<rparr>"

text \<open>
  The fields of \<open>GameLogic\<close>, together with the store of \<open>Ball\<close> objects (\<open>heap\<close>)
  and the next unused reference (\<open>next_ref\<close>).
\<close>

record GameLogic =
  screen_width :: int
  screen_height :: int
  balls :: "ref list"
  inventory :: "ref list"
  dragged_ball :: "ref option"
  drag_offset_x :: real
  drag_offset_y :: real
  delete_zone_y :: int
  delete_zone_height :: int
  friction :: real
  bounce_damping :: real
  gravity :: real
  min_color_value :: int
  max_color_value :: int
  heap :: "ref \<Rightarrow> Ball"
  next_ref :: ref

definition no_ball :: Ball where
  "no_ball = \<lparr>x = 0, y = 0, vx = 0, vy = 0, radius = 0, color = \<lparr>r = 0, g = 0, b = 0\<rparr>,
              state = FREE, ball_id = 0\<rparr>"

definition GameLogic_init :: "int \<Rightarrow> int \<Rightarrow> GameLogic" where
  "GameLogic_init w h =
     \<lparr>screen_width = w, screen_height = h, balls = [], inventory = [], dragged_ball = None,
      drag_offset_x = 0, drag_offset_y = 0,
      delete_zone_y = h - 50, delete_zone_height = 50,
      friction = 98 / 100, bounce_damping = 8 / 10, gravity = 2 / 10,
      min_color_value = 50, max_color_value = 255,
      heap = (\<lambda>a. no_ball), next_ref = 0\<rparr>"

text \<open>Mutation of the object behind a reference.\<close>

definition upd :: "GameLogic \<Rightarrow> ref \<Rightarrow> (Ball \<Rightarrow> Ball) \<Rightarrow> GameLogic" where
  "upd s a f = s\<lparr>heap := (heap s)(a := f (heap s a))\<rparr>"

subsection \<open>Creating balls\<close>

record add_draws =
  k_r :: int
  k_g :: int
  k_b :: int
  u_target :: real
  u_vx :: real
  u_vy :: real
  k_id :: int

definition generate_random_color ::
  "GameLogic \<Rightarrow> real \<Rightarrow> real \<Rightarrow> add_draws \<Rightarrow> error + Color" where
  "generate_random_color s min_brightness max_brightness d =
     (let r0 = randint (min_color_value s) (max_color_value s) (k_r d);
          g0 = randint (min_color_value s) (max_color_value s) (k_g d);
          b0 = randint (min_color_value s) (max_color_value s) (k_b d);
          c = Color_init r0 g0 b0;
          current_brightness = get_brightness c
      in if current_brightness < min_brightness \<or> current_brightness > max_brightness then
           (let target_brightness = uniform min_brightness max_brightness (u_target d)
            in if current_brightness = 0 then Inl ZeroDivisionError
               else (let scale_factor = target_brightness / current_brightness;
                         new_r = int_trunc (real_of_int (r c) * scale_factor);
                         new_g = int_trunc (real_of_int (g c) * scale_factor);
                         new_b = int_trunc (real_of_int (b c) * scale_factor)
                     in Inr (Color_init new_r new_g new_b)))
         else Inr c)"

definition add_ball ::
  "GameLogic \<Rightarrow> real \<Rightarrow> real \<Rightarrow> real \<Rightarrow> add_draws \<Rightarrow> error + (ref \<times> GameLogic)" where
  "add_ball s x0 y0 radius0 d =
     (case generate_random_color s (4 / 10) (9 / 10) d of
        Inl e \<Rightarrow> Inl e
      | Inr c \<Rightarrow>
          (let ball = Ball_init x0 y0 (uniform (- 3) 3 (u_vx d)) (uniform (- 3) 3 (u_vy d))
                        radius0 c FREE 0 (k_id d);
               a = next_ref s
           in Inr (a, s\<lparr>heap := (heap s)(a := ball), next_ref := Suc a,
                        balls := balls s @ [a]\<rparr>)))"

subsection \<open>The simulation step\<close>

definition update_ball_physics :: "GameLogic \<Rightarrow> ref \<Rightarrow> real \<Rightarrow> GameLogic" where
  "update_ball_physics s a dt =
     upd s a (\<lambda>B0.
       let B1 = B0\<lparr>vy := vy B0 + gravity s * dt\<rparr>;
           B2 = B1\<lparr>x := x B1 + vx B1 * dt\<rparr>;
           B3 = B2\<lparr>y := y B2 + vy B2 * dt\<rparr>;
           B4 = B3\<lparr>vx := vx B3 * friction s\<rparr>;
           B5 = B4\<lparr>vy := vy B4 * friction s\<rparr>
       in B5)"

definition mix_ball_colors :: "GameLogic \<Rightarrow> ref \<Rightarrow> ref \<Rightarrow> GameLogic" where
  "mix_ball_colors s ball1 ball2 =
     (let mixed_color = mix_with (color (heap s ball1)) (color (heap s ball2));
          s1 = upd s ball1 (\<lambda>B. B\<lparr>color := mixed_color\<rparr>);
          s2 = upd s1 ball2 (\<lambda>B. B\<lparr>color := mixed_color\<rparr>)
      in s2)"

text \<open>
  The body of the loop of \<open>_check_collisions\<close>. \<open>other == ball\<close> is the equality that the
  dataclass generates: all fields are compared.
\<close>

definition collide :: "GameLogic \<Rightarrow> ref \<Rightarrow> ref \<Rightarrow> GameLogic" where
  "collide s ball other =
     (if heap s other = heap s ball \<or> state (heap s other) \<noteq> FREE then s
      else
        (let distance = sqrt ((x (heap s ball) - x (heap s other))\<^sup>2
                              + (y (heap s ball) - y (heap s other))\<^sup>2);
             min_distance = radius (heap s ball) + radius (heap s other)
         in if distance < min_distance \<and> distance > 0 then
              (let s1 = mix_ball_colors s ball other;
                   overlap = min_distance - distance;
                   separation_x = (x (heap s1 ball) - x (heap s1 other)) / distance * overlap * (5 / 10);
                   separation_y = (y (heap s1 ball) - y (heap s1 other)) / distance * overlap * (5 / 10);
                   s2 = upd s1 ball (\<lambda>B. B\<lparr>x := x B + separation_x\<rparr>);
                   s3 = upd s2 ball (\<lambda>B. B\<lparr>y := y B + separation_y\<rparr>);
                   s4 = upd s3 other (\<lambda>B. B\<lparr>x := x B - separation_x\<rparr>);
                   s5 = upd s4 other (\<lambda>B. B\<lparr>y := y B - separation_y\<rparr>)
               in s5)
            else s))"

definition check_collisions :: "GameLogic \<Rightarrow> ref \<Rightarrow> GameLogic" where
  "check_collisions s ball = fold (\<lambda>other s'. collide s' ball other) (balls s) s"

definition check_boundaries :: "GameLogic \<Rightarrow> ref \<Rightarrow> GameLogic" where
  "check_boundaries s a =
     upd s a (\<lambda>B0.
       let B1 = (if x B0 - radius B0 < 0 then
                   B0\<lparr>x := radius B0, vx := \<bar>vx B0\<bar> * bounce_damping s\<rparr>
                 else if x B0 + radius B0 > real_of_int (screen_width s) then
                   B0\<lparr>x := real_of_int (screen_width s) - radius B0,
                      vx := - \<bar>vx B0\<bar> * bounce_damping s\<rparr>
                 else B0);
           B2 = (if y B1 - radius B1 < 0 then
                   B1\<lparr>y := radius B1, vy := \<bar>vy B1\<bar> * bounce_damping s\<rparr>
                 else if y B1 + radius B1 > real_of_int (screen_height s) then
                   B1\<lparr>y := real_of_int (screen_height s) - radius B1,
                      vy := - \<bar>vy B1\<bar> * bounce_damping s\<rparr>
                 else B1)
       in B2)"

text \<open>The body of the loop of \<open>update\<close>, and the loop over the active balls.\<close>

definition update_ball :: "real \<Rightarrow> ref \<Rightarrow> GameLogic \<Rightarrow> GameLogic" where
  "update_ball dt ball s =
     (if state (heap s ball) = FREE then
        check_boundaries (check_collisions (update_ball_physics s ball dt) ball) ball
      else s)"

definition update :: "GameLogic \<Rightarrow> real \<Rightarrow> GameLogic" where
  "update s dt = fold (update_ball dt) (balls s) s"

subsection \<open>Dragging\<close>

fun start_drag_loop :: "GameLogic \<Rightarrow> real \<Rightarrow> real \<Rightarrow> ref list \<Rightarrow> bool \<times> GameLogic" where
  "start_drag_loop s mouse_x mouse_y [] = (False, s)"
| "start_drag_loop s mouse_x mouse_y (a # as) =
     (if state (heap s a) = FREE \<and>
         sqrt ((x (heap s a) - mouse_x)\<^sup>2 + (y (heap s a) - mouse_y)\<^sup>2) \<le> radius (heap s a)
      then (True, (upd s a (\<lambda>B. B\<lparr>state := BEING_DRAGGED\<rparr>))
                    \<lparr>dragged_ball := Some a,
                     drag_offset_x := x (heap s a) - mouse_x,
                     drag_offset_y := y (heap s a) - mouse_y\<rparr>)
      else start_drag_loop s mouse_x mouse_y as)"

definition start_drag :: "GameLogic \<Rightarrow> real \<Rightarrow> real \<Rightarrow> bool \<times> GameLogic" where
  "start_drag s mouse_x mouse_y = start_drag_loop s mouse_x mouse_y (rev (balls s))"

definition drag_ball :: "GameLogic \<Rightarrow> real \<Rightarrow> real \<Rightarrow> GameLogic" where
  "drag_ball s mouse_x mouse_y =
     (case dragged_ball s of
        None \<Rightarrow> s
      | Some a \<Rightarrow>
          if state (heap s a) = BEING_DRAGGED then
            (let s1 = upd s a (\<lambda>B. B\<lparr>x := mouse_x + drag_offset_x s\<rparr>);
                 s2 = upd s1 a (\<lambda>B. B\<lparr>y := mouse_y + drag_offset_y s\<rparr>)
             in s2)
          else s)"

definition is_in_delete_zone :: "GameLogic \<Rightarrow> real \<Rightarrow> real \<Rightarrow> bool" where
  "is_in_delete_zone s px py =
     (py \<ge> real_of_int (delete_zone_y s) \<and>
      py \<le> real_of_int (delete_zone_y s + delete_zone_height s))"

text \<open>
  \<open>v in xs\<close> and \<open>xs.remove(v)\<close> on a list of balls compare with the dataclass
  equality; \<open>remove\<close> deletes the first equal element and raises \<open>ValueError\<close> when
  there is none.
\<close>

definition py_in :: "(ref \<Rightarrow> Ball) \<Rightarrow> Ball \<Rightarrow> ref list \<Rightarrow> bool" where
  "py_in h v xs = list_ex (\<lambda>a. h a = v) xs"

fun py_remove :: "(ref \<Rightarrow> Ball) \<Rightarrow> Ball \<Rightarrow> ref list \<Rightarrow> error + ref list" where
  "py_remove h v [] = Inl ValueError"
| "py_remove h v (a # as) =
     (if h a = v then Inr as
      else (case py_remove h v as of Inl e \<Rightarrow> Inl e | Inr bs \<Rightarrow> Inr (a # bs)))"

definition add_to_inventory :: "GameLogic \<Rightarrow> ref \<Rightarrow> error + GameLogic" where
  "add_to_inventory s a =
     (let s1 = upd s a (\<lambda>B. B\<lparr>state := IN_INVENTORY\<rparr>)
      in case py_remove (heap s1) (heap s1 a) (balls s1) of
           Inl e \<Rightarrow> Inl e
         | Inr bs \<Rightarrow> Inr (s1\<lparr>balls := bs, inventory := inventory s1 @ [a]\<rparr>))"

definition delete_ball :: "GameLogic \<Rightarrow> ref \<Rightarrow> error + GameLogic" where
  "delete_ball s a =
     (case (if py_in (heap s) (heap s a) (balls s)
            then (case py_remove (heap s) (heap s a) (balls s) of
                    Inl e \<Rightarrow> Inl e | Inr bs \<Rightarrow> Inr (s\<lparr>balls := bs\<rparr>))
            else Inr s) of
        Inl e \<Rightarrow> Inl e
      | Inr s1 \<Rightarrow>
          if py_in (heap s1) (heap s1 a) (inventory s1)
          then (case py_remove (heap s1) (heap s1 a) (inventory s1) of
                  Inl e \<Rightarrow> Inl e | Inr xs \<Rightarrow> Inr (s1\<lparr>inventory := xs\<rparr>))
          else Inr s1)"

definition end_drag :: "GameLogic \<Rightarrow> real \<Rightarrow> real \<Rightarrow> error + (bool \<times> GameLogic)" where
  "end_drag s mouse_x mouse_y =
     (case dragged_ball s of
        None \<Rightarrow> Inr (False, s)
      | Some a \<Rightarrow>
          if is_in_delete_zone s mouse_x mouse_y then
            (case delete_ball s a of
               Inl e \<Rightarrow> Inl e
             | Inr s1 \<Rightarrow> Inr (True, s1\<lparr>dragged_ball := None\<rparr>))
          else
            (let inventory_x = real_of_int (screen_width s - 100);
                 inventory_y = 50;
                 inventory_radius = 30;
                 distance_to_inventory =
                   sqrt ((mouse_x - inventory_x)\<^sup>2 + (mouse_y - inventory_y)\<^sup>2)
             in if distance_to_inventory \<le> inventory_radius then
                  (case add_to_inventory s a of
                     Inl e \<Rightarrow> Inl e
                   | Inr s1 \<Rightarrow> Inr (True, s1\<lparr>dragged_ball := None\<rparr>))
                else
                  (let s1 = upd s a (\<lambda>B. B\<lparr>state := FREE\<rparr>);
                       s2 = upd s1 a (\<lambda>B. B\<lparr>vx := (mouse_x - x B) * (1 / 10)\<rparr>);
                       s3 = upd s2 a (\<lambda>B. B\<lparr>vy := (mouse_y - y B) * (1 / 10)\<rparr>)
                   in Inr (False, s3\<lparr>dragged_ball := None\<rparr>))))"

subsection \<open>Inventory\<close>

record eject_draws =
  u_x :: real
  u_y :: real
  u_ex :: real
  u_ey :: real

definition eject_ball_from_inventory ::
  "GameLogic \<Rightarrow> int \<Rightarrow> eject_draws \<Rightarrow> bool \<times> GameLogic" where
  "eject_ball_from_inventory s inventory_index d =
     (if 0 \<le> inventory_index \<and> inventory_index < int (length (inventory s)) then
        (let i = nat inventory_index;
             a = inventory s ! i;
             s1 = s\<lparr>inventory := take i (inventory s) @ drop (Suc i) (inventory s)\<rparr>;
             s2 = upd s1 a (\<lambda>B. B\<lparr>state := FREE\<rparr>);
             s3 = upd s2 a (\<lambda>B. B\<lparr>x := uniform 50 (real_of_int (screen_width s - 50)) (u_x d)\<rparr>);
             s4 = upd s3 a (\<lambda>B. B\<lparr>y := uniform 50 150 (u_y d)\<rparr>);
             s5 = upd s4 a (\<lambda>B. B\<lparr>vx := uniform (- 2) 2 (u_ex d)\<rparr>);
             s6 = upd s5 a (\<lambda>B. B\<lparr>vy := uniform (- 2) 2 (u_ey d)\<rparr>)
         in (True, s6\<lparr>balls := balls s6 @ [a]\<rparr>))
      else (False, s))"

definition get_ball_quality_score :: "Ball \<Rightarrow> real" where
  "get_ball_quality_score ball =
     (let brightness = get_brightness (color ball);
          saturation = get_saturation (color ball)
      in if is_white (color ball) then 0
         else if saturation < 1 / 10 then 1 / 10
         else
           (let quality = brightness * (saturation powr (1 / 2));
                r0 = r (color ball); g0 = g (color ball); b0 = b (color ball);
                balance = 1 - real_of_int \<bar>max (max r0 g0) b0 - min (min r0 g0) b0\<bar> / 255;
                quality' = quality * (7 / 10 + 3 / 10 * balance)
            in min 1 quality'))"

definition clear_all_balls :: "GameLogic \<Rightarrow> GameLogic" where
  "clear_all_balls s = s\<lparr>balls := [], inventory := [], dragged_ball := None\<rparr>"

section \<open>Auxiliary notions for the statements\<close>

text \<open>A color whose channels are in range, as every constructed color is.\<close>

definition valid_Color :: "Color \<Rightarrow> bool" where
  "valid_Color c = (0 \<le> r c \<and> r c \<le> 255 \<and> 0 \<le> g c \<and> g c \<le> 255 \<and> 0 \<le> b c \<and> b c \<le> 255)"

definition spread :: "Color \<Rightarrow> int" where
  "spread c = max (max (r c) (g c)) (b c) - min (min (r c) (g c)) (b c)"

definition raw_quality :: "Color \<Rightarrow> real" where
  "raw_quality c =
     get_brightness c * sqrt (get_saturation c) * (7 / 10 + 3 / 10 * (1 - real_of_int (spread c) / 255))"

text \<open>Concrete balls and games on which the theorems are exercised.\<close>

definition demo_ball :: "real \<Rightarrow> real \<Rightarrow> real \<Rightarrow> real \<Rightarrow> BallState \<Rightarrow> Ball" where
  "demo_ball px py pvx pvy st =
     \<lparr>x = px, y = py, vx = pvx, vy = pvy, radius = 20, color = \<lparr>r = 255, g = 0, b = 0\<rparr>,
      state = st, ball_id = 1234\<rparr>"

definition demo_game :: "Ball \<Rightarrow> GameLogic" where
  "demo_game B = (GameLogic_init 800 600)\<lparr>heap := (\<lambda>a. no_ball)(0 := B), balls := [0], next_ref := 1\<rparr>"

text \<open>A ball wider than the arena: it crosses the left and the right edge at once.\<close>

definition wide_game :: GameLogic where
  "wide_game = demo_game ((demo_ball 400 100 3 0 FREE)\<lparr>radius := 500\<rparr>)"

definition demo_inventory :: GameLogic where
  "demo_inventory =
     (GameLogic_init 800 600)
       \<lparr>heap := (\<lambda>a. no_ball)(0 := demo_ball 0 0 0 0 IN_INVENTORY), inventory := [0], next_ref := 1\<rparr>"

definition demo_draws :: eject_draws where
  "demo_draws = \<lparr>u_x = 1 / 2, u_y = 1 / 2, u_ex = 1 / 2, u_ey = 1 / 2\<rparr>"

definition demo_pair :: GameLogic where
  "demo_pair =
     (GameLogic_init 800 600)
       \<lparr>heap := (\<lambda>a. no_ball)
                 (0 := demo_ball 100 100 0 0 FREE,
                  1 := (demo_ball 130 100 0 0 FREE)\<lparr>color := \<lparr>r = 0, g = 0, b = 255\<rparr>\<rparr>),
        balls := [0, 1], next_ref := 2\<rparr>"

text \<open>
  What the simulation step keeps: every field of the game other than the store, and in the
  store the state, id and radius of every object and the whole of every object that is
  not FREE.
\<close>

definition frame :: "GameLogic \<Rightarrow> GameLogic \<Rightarrow> bool" where
  "frame s s' =
     (balls s' = balls s \<and> inventory s' = inventory s \<and> dragged_ball s' = dragged_ball s
      \<and> next_ref s' = next_ref s \<and> gravity s' = gravity s \<and> friction s' = friction s
      \<and> bounce_damping s' = bounce_damping s \<and> screen_width s' = screen_width s
      \<and> screen_height s' = screen_height s
      \<and> (\<forall>c. state (heap s' c) = state (heap s c) \<and> ball_id (heap s' c) = ball_id (heap s c)
              \<and> radius (heap s' c) = radius (heap s c))
      \<and> (\<forall>c. state (heap s c) \<noteq> FREE \<longrightarrow> heap s' c = heap s c))"


text \<open>
  The invariants of the data model: the active list and the inventory hold distinct,
  allocated references and share none; active entities are FREE or BEING_DRAGGED and
  inventory entities are IN_INVENTORY; the dragged reference points to an entity exactly
  when that entity is active and BEING_DRAGGED.
\<close>

definition game_inv :: "GameLogic \<Rightarrow> bool" where
  "game_inv s =
     (distinct (balls s) \<and> distinct (inventory s) \<and> set (balls s) \<inter> set (inventory s) = {}
      \<and> (\<forall>a \<in> set (balls s). a < next_ref s \<and> state (heap s a) \<noteq> IN_INVENTORY)
      \<and> (\<forall>a \<in> set (inventory s). a < next_ref s \<and> state (heap s a) = IN_INVENTORY)
      \<and> (\<forall>a. dragged_ball s = Some a \<longleftrightarrow>
                a \<in> set (balls s) \<and> state (heap s a) = BEING_DRAGGED))"

text \<open>
  The states that a new game reaches through the public operations when \<open>start_drag\<close> is
  called only while no drag is in progress.
\<close>

inductive guarded_reachable :: "GameLogic \<Rightarrow> bool" where
  gr_init: "guarded_reachable (GameLogic_init w h)"
| gr_add: "guarded_reachable s \<Longrightarrow> add_ball s x0 y0 radius0 d = Inr (a, s') \<Longrightarrow> guarded_reachable s'"
| gr_update: "guarded_reachable s \<Longrightarrow> guarded_reachable (update s dt)"
| gr_start: "guarded_reachable s \<Longrightarrow> dragged_ball s = None \<Longrightarrow>
             guarded_reachable (snd (start_drag s mouse_x mouse_y))"
| gr_drag: "guarded_reachable s \<Longrightarrow> guarded_reachable (drag_ball s mouse_x mouse_y)"
| gr_end: "guarded_reachable s \<Longrightarrow> end_drag s mouse_x mouse_y = Inr (ok, s') \<Longrightarrow>
           guarded_reachable s'"
| gr_eject: "guarded_reachable s \<Longrightarrow>
             guarded_reachable (snd (eject_ball_from_inventory s i d))"
| gr_clear: "guarded_reachable s \<Longrightarrow> guarded_reachable (clear_all_balls s)"

text \<open>Two balls created by \<open>add_ball\<close> with the same random draws.\<close>

definition demo_add :: add_draws where
  "demo_add = \<lparr>k_r = 150, k_g = 150, k_b = 150, u_target = 0, u_vx = 1 / 2, u_vy = 1 / 2,
               k_id = 234\<rparr>"

definition added_ball :: "real \<Rightarrow> real \<Rightarrow> Ball" where
  "added_ball px py =
     \<lparr>x = px, y = py, vx = 0, vy = 0, radius = 20, color = \<lparr>r = 200, g = 200, b = 200\<rparr>,
      state = FREE, ball_id = 1234\<rparr>"

definition one_ball :: GameLogic where
  "one_ball =
     (GameLogic_init 800 600)
       \<lparr>heap := (\<lambda>a. no_ball)(0 := added_ball 100 100), balls := [0], next_ref := 1\<rparr>"

definition two_balls :: GameLogic where
  "two_balls =
     (GameLogic_init 800 600)
       \<lparr>heap := (\<lambda>a. no_ball)(0 := added_ball 100 100, 1 := added_ball 300 100),
        balls := [0, 1], next_ref := 2\<rparr>"

definition dragging :: GameLogic where
  "dragging =
     (GameLogic_init 800 600)
       \<lparr>heap := (\<lambda>a. no_ball)(0 := demo_ball 100 100 0 0 BEING_DRAGGED), balls := [0],
        next_ref := 1, dragged_ball := Some 0\<rparr>"
section \<open>Color mixing\<close>

lemma int_trunc_half: "0 \<le> n \<Longrightarrow> int_trunc (real_of_int n / 2) = n div 2"
  by (simp add: int_trunc_def floor_divide_of_int_eq [of n 2, simplified])

lemma clamp_avg:
  assumes "0 \<le> m" "m \<le> 255" "0 \<le> n" "n \<le> 255"
  shows "max 0 (min 255 (int_trunc (real_of_int (m + n) / 2))) = (m + n) div 2"
proof -
  have "int_trunc (real_of_int (m + n) / 2) = (m + n) div 2"
    using assms by (intro int_trunc_half) simp
  then show ?thesis using assms by simp
qed

lemma Color_init_channels:
  "0 \<le> r (Color_init r0 g0 b0) \<and> r (Color_init r0 g0 b0) \<le> 255 \<and>
   0 \<le> g (Color_init r0 g0 b0) \<and> g (Color_init r0 g0 b0) \<le> 255 \<and>
   0 \<le> b (Color_init r0 g0 b0) \<and> b (Color_init r0 g0 b0) \<le> 255"
  by (simp add: Color_init_def)

lemma mix_with_div:
  assumes "0 \<le> r c1" "r c1 \<le> 255" "0 \<le> g c1" "g c1 \<le> 255" "0 \<le> b c1" "b c1 \<le> 255"
    and "0 \<le> r c2" "r c2 \<le> 255" "0 \<le> g c2" "g c2 \<le> 255" "0 \<le> b c2" "b c2 \<le> 255"
  shows "mix_with c1 c2 =
           \<lparr>r = (r c1 + r c2) div 2, g = (g c1 + g c2) div 2, b = (b c1 + b c2) div 2\<rparr>"
  using assms by (simp add: mix_with_def Color_init_def clamp_avg del: of_int_add)

lemma mix_with_commute: "mix_with c1 c2 = mix_with c2 c1"
  by (simp add: mix_with_def add.commute)

text \<open>
  Claim C6. For all colors (values built by the clamping constructor), \<open>mix_with\<close> is the
  per-channel truncating integer average, it is commutative, and mixing pure red with
  pure blue gives RGB(127, 0, 127).
\<close>

theorem mix_with_average:
  "mix_with (Color_init r1 g1 b1) (Color_init r2 g2 b2) =
     \<lparr>r = (r (Color_init r1 g1 b1) + r (Color_init r2 g2 b2)) div 2,
      g = (g (Color_init r1 g1 b1) + g (Color_init r2 g2 b2)) div 2,
      b = (b (Color_init r1 g1 b1) + b (Color_init r2 g2 b2)) div 2\<rparr>
   \<and> mix_with (Color_init r1 g1 b1) (Color_init r2 g2 b2) =
     mix_with (Color_init r2 g2 b2) (Color_init r1 g1 b1)
   \<and> mix_with (Color_init 255 0 0) (Color_init 0 0 255) = Color_init 127 0 127"
proof -
  let ?a = "Color_init r1 g1 b1" and ?c = "Color_init r2 g2 b2"
  have avg: "mix_with ?a ?c =
      \<lparr>r = (r ?a + r ?c) div 2, g = (g ?a + g ?c) div 2, b = (b ?a + b ?c) div 2\<rparr>"
    using Color_init_channels [of r1 g1 b1] Color_init_channels [of r2 g2 b2]
    by (intro mix_with_div) simp_all
  have ex: "mix_with (Color_init 255 0 0) (Color_init 0 0 255) = Color_init 127 0 127"
    by (simp add: mix_with_def Color_init_def int_trunc_def)
  show ?thesis using avg ex mix_with_commute [of ?a ?c] by simp
qed

theorem mix_with_average_witness:
  "mix_with (Color_init 255 0 0) (Color_init 0 0 255) = \<lparr>r = 127, g = 0, b = 127\<rparr>
   \<and> mix_with (Color_init 300 11 (- 5)) (Color_init 0 20 7) = \<lparr>r = 127, g = 15, b = 3\<rparr>
   \<and> mix_with (Color_init 0 20 7) (Color_init 300 11 (- 5)) = \<lparr>r = 127, g = 15, b = 3\<rparr>"
  using mix_with_average [of 255 0 0 0 0 255] mix_with_average [of 300 11 "- 5" 0 20 7]
    mix_with_average [of 0 20 7 300 11 "- 5"]
  by (simp add: Color_init_def)

section \<open>Basic facts about the store\<close>

lemma upd_heap [simp]: "heap (upd s a f) = (heap s)(a := f (heap s a))"
  by (simp add: upd_def)

lemma upd_fields [simp]:
  "balls (upd s a f) = balls s" "inventory (upd s a f) = inventory s"
  "dragged_ball (upd s a f) = dragged_ball s" "next_ref (upd s a f) = next_ref s"
  "screen_width (upd s a f) = screen_width s" "screen_height (upd s a f) = screen_height s"
  "bounce_damping (upd s a f) = bounce_damping s" "friction (upd s a f) = friction s"
  "gravity (upd s a f) = gravity s"
  "drag_offset_x (upd s a f) = drag_offset_x s" "drag_offset_y (upd s a f) = drag_offset_y s"
  "delete_zone_y (upd s a f) = delete_zone_y s"
  "delete_zone_height (upd s a f) = delete_zone_height s"
  "min_color_value (upd s a f) = min_color_value s"
  "max_color_value (upd s a f) = max_color_value s"
  by (simp_all add: upd_def)

section \<open>Calls without a drag in progress\<close>

text \<open>
  Claim C10. When the dragged reference is \<open>None\<close>, \<open>drag_ball\<close> leaves the whole
  simulation state as it is, and \<open>end_drag\<close> returns \<open>False\<close> with the state unchanged
  (so no entity, list or reference changes).
\<close>

theorem no_drag_no_effect:
  "dragged_ball s = None \<Longrightarrow>
     drag_ball s mouse_x mouse_y = s \<and> end_drag s mouse_x mouse_y = Inr (False, s)"
  by (simp add: drag_ball_def end_drag_def)

theorem no_drag_no_effect_witness:
  "dragged_ball (GameLogic_init 800 600) = None \<and>
   drag_ball (GameLogic_init 800 600) 10 20 = GameLogic_init 800 600 \<and>
   end_drag (GameLogic_init 800 600) 10 20 = Inr (False, GameLogic_init 800 600)"
  using no_drag_no_effect [of "GameLogic_init 800 600" 10 20]
  by (simp add: GameLogic_init_def)

section \<open>Boundary reflection\<close>

text \<open>
  Claim C5, as the code has it. The boundary pass tests the left edge before the right
  one and the top edge before the bottom one, and treats at most one edge per axis. An
  entity past the left edge (\<open>x - radius < 0\<close>) gets \<open>x = radius\<close> and
  \<open>vx = \<bar>vx\<bar> * bounce_damping\<close>, which is positive for a positive damping and a
  nonzero \<open>vx\<close>, whatever the sign of \<open>vx\<close> was. An entity past the right edge that is
  not past the left edge gets \<open>x = width - radius\<close> and \<open>vx = - \<bar>vx\<bar> * bounce_damping\<close>.
  The top and bottom edges act on \<open>y\<close> and \<open>vy\<close> in the same way.
\<close>

theorem check_boundaries_reflects:
  "(x (heap s a) - radius (heap s a) < 0 \<longrightarrow>
      x (heap (check_boundaries s a) a) = radius (heap s a) \<and>
      vx (heap (check_boundaries s a) a) = \<bar>vx (heap s a)\<bar> * bounce_damping s \<and>
      (0 < bounce_damping s \<and> vx (heap s a) \<noteq> 0 \<longrightarrow> 0 < vx (heap (check_boundaries s a) a)))
   \<and> (\<not> x (heap s a) - radius (heap s a) < 0 \<and>
        x (heap s a) + radius (heap s a) > real_of_int (screen_width s) \<longrightarrow>
      x (heap (check_boundaries s a) a) = real_of_int (screen_width s) - radius (heap s a) \<and>
      vx (heap (check_boundaries s a) a) = - (\<bar>vx (heap s a)\<bar> * bounce_damping s) \<and>
      (0 < bounce_damping s \<and> vx (heap s a) \<noteq> 0 \<longrightarrow> vx (heap (check_boundaries s a) a) < 0))
   \<and> (y (heap s a) - radius (heap s a) < 0 \<longrightarrow>
      y (heap (check_boundaries s a) a) = radius (heap s a) \<and>
      vy (heap (check_boundaries s a) a) = \<bar>vy (heap s a)\<bar> * bounce_damping s \<and>
      (0 < bounce_damping s \<and> vy (heap s a) \<noteq> 0 \<longrightarrow> 0 < vy (heap (check_boundaries s a) a)))
   \<and> (\<not> y (heap s a) - radius (heap s a) < 0 \<and>
        y (heap s a) + radius (heap s a) > real_of_int (screen_height s) \<longrightarrow>
      y (heap (check_boundaries s a) a) = real_of_int (screen_height s) - radius (heap s a) \<and>
      vy (heap (check_boundaries s a) a) = - (\<bar>vy (heap s a)\<bar> * bounce_damping s) \<and>
      (0 < bounce_damping s \<and> vy (heap s a) \<noteq> 0 \<longrightarrow> vy (heap (check_boundaries s a) a) < 0))"
  by (simp add: check_boundaries_def Let_def)

theorem check_boundaries_reflects_witness:
  "x (heap (demo_game (demo_ball 5 7 3 (- 2) FREE)) 0)
     - radius (heap (demo_game (demo_ball 5 7 3 (- 2) FREE)) 0) < 0
   \<and> x (heap (check_boundaries (demo_game (demo_ball 5 7 3 (- 2) FREE)) 0) 0) = 20
   \<and> vx (heap (check_boundaries (demo_game (demo_ball 5 7 3 (- 2) FREE)) 0) 0) = 24 / 10
   \<and> y (heap (check_boundaries (demo_game (demo_ball 5 7 3 (- 2) FREE)) 0) 0) = 20
   \<and> vy (heap (check_boundaries (demo_game (demo_ball 5 7 3 (- 2) FREE)) 0) 0) = 16 / 10
   \<and> x (heap (demo_game (demo_ball 790 595 3 (- 2) FREE)) 0)
     + radius (heap (demo_game (demo_ball 790 595 3 (- 2) FREE)) 0) > 800
   \<and> x (heap (check_boundaries (demo_game (demo_ball 790 595 3 (- 2) FREE)) 0) 0) = 780
   \<and> vx (heap (check_boundaries (demo_game (demo_ball 790 595 3 (- 2) FREE)) 0) 0) = - (24 / 10)
   \<and> y (heap (check_boundaries (demo_game (demo_ball 790 595 3 (- 2) FREE)) 0) 0) = 580
   \<and> vy (heap (check_boundaries (demo_game (demo_ball 790 595 3 (- 2) FREE)) 0) 0) = - (16 / 10)"
  using check_boundaries_reflects [of "demo_game (demo_ball 5 7 3 (- 2) FREE)" 0]
    check_boundaries_reflects [of "demo_game (demo_ball 790 595 3 (- 2) FREE)" 0]
  by (simp add: demo_game_def demo_ball_def GameLogic_init_def)

text \<open>
  Claim C5 as stated fails: an entity of radius 500 at \<open>x = 400\<close> in an arena of width
  800 crosses the right edge (and the left one). The boundary pass does not clamp it to
  the right edge, which would be \<open>x = 300\<close> with a negative \<open>vx\<close>: it takes the left
  branch and leaves \<open>x = 500\<close> with a positive \<open>vx\<close>.
\<close>

theorem right_edge_not_clamped:
  "x (heap wide_game 0) + radius (heap wide_game 0) > real_of_int (screen_width wide_game)
   \<and> real_of_int (screen_width wide_game) - radius (heap wide_game 0) = 300
   \<and> x (heap (check_boundaries wide_game 0) 0) = 500
   \<and> x (heap (check_boundaries wide_game 0) 0)
       \<noteq> real_of_int (screen_width wide_game) - radius (heap wide_game 0)
   \<and> vx (heap (check_boundaries wide_game 0) 0) = 24 / 10
   \<and> vx (heap (check_boundaries wide_game 0) 0)
       \<noteq> - (\<bar>vx (heap wide_game 0)\<bar> * bounce_damping wide_game)"
  by (simp add: check_boundaries_def Let_def wide_game_def demo_game_def demo_ball_def
      GameLogic_init_def)

section \<open>Quality score\<close>

lemma valid_Color_init: "valid_Color (Color_init r0 g0 b0)"
  by (simp add: valid_Color_def Color_init_def)

lemma brightness_bounds:
  assumes "valid_Color c"
  shows "0 \<le> get_brightness c" "get_brightness c \<le> 1"
proof -
  have "0 \<le> r c + g c + b c" "r c + g c + b c \<le> 765"
    using assms by (auto simp: valid_Color_def)
  then have "0 \<le> real_of_int (r c + g c + b c)" "real_of_int (r c + g c + b c) \<le> 765"
    by linarith+
  then show "0 \<le> get_brightness c" "get_brightness c \<le> 1"
    by (simp_all add: get_brightness_def)
qed

lemma spread_bounds:
  assumes "valid_Color c"
  shows "0 \<le> spread c" "spread c \<le> 255"
  using assms by (auto simp: valid_Color_def spread_def)

lemma saturation_bounds:
  assumes "valid_Color c"
  shows "0 \<le> get_saturation c" "get_saturation c \<le> 1"
proof -
  have "0 \<le> real_of_int (spread c)" "real_of_int (spread c) \<le> 255"
    using spread_bounds [OF assms] by linarith+
  then show "0 \<le> get_saturation c" "get_saturation c \<le> 1"
    by (simp_all add: get_saturation_def Let_def spread_def)
qed

lemma raw_quality_bounds:
  assumes "valid_Color c"
  shows "0 \<le> raw_quality c" "raw_quality c \<le> 1"
proof -
  define bal where "bal = 1 - real_of_int (spread c) / 255"
  have sp: "0 \<le> real_of_int (spread c)" "real_of_int (spread c) \<le> 255"
    using spread_bounds [OF assms] by linarith+
  then have bal: "0 \<le> bal" "bal \<le> 1"
    by (simp_all add: bal_def)
  have f: "0 \<le> 7 / 10 + 3 / 10 * bal" "7 / 10 + 3 / 10 * bal \<le> 1"
    using bal by simp_all
  have sq: "0 \<le> sqrt (get_saturation c)" "sqrt (get_saturation c) \<le> 1"
    using saturation_bounds [OF assms] by simp_all
  have p: "0 \<le> get_brightness c * sqrt (get_saturation c)"
    "get_brightness c * sqrt (get_saturation c) \<le> 1"
    using brightness_bounds [OF assms] sq by (simp_all add: mult_le_one)
  have rq: "raw_quality c = get_brightness c * sqrt (get_saturation c) * (7 / 10 + 3 / 10 * bal)"
    by (simp add: raw_quality_def bal_def)
  show "0 \<le> raw_quality c" unfolding rq using p(1) f(1) by simp
  show "raw_quality c \<le> 1" unfolding rq
    by (rule mult_le_one [OF p(2) f(1) f(2)])
qed

lemma quality_score_cases:
  assumes "valid_Color (color B)"
  shows "get_ball_quality_score B =
           (if is_white (color B) then 0
            else if get_saturation (color B) < 1 / 10 then 1 / 10
            else min 1 (raw_quality (color B)))"
proof -
  have "\<bar>spread (color B)\<bar> = spread (color B)"
    using spread_bounds(1) [OF assms] by simp
  moreover have "get_saturation (color B) powr (1 / 2) = sqrt (get_saturation (color B))"
    using saturation_bounds(1) [OF assms] by (simp add: powr_half_sqrt)
  ultimately show ?thesis
    by (simp add: get_ball_quality_score_def Let_def raw_quality_def spread_def)
qed

text \<open>
  Claim C8. For every color (a value built by the clamping constructor) the quality score
  lies in \<open>[0, 1]\<close>; it is 0 for a near-white color (all channels above 200), 1/10 for a
  color that is not near-white and has saturation below 1/10, and otherwise
  \<open>brightness * sqrt saturation * (0.7 + 0.3 * balance)\<close> capped at 1, where
  \<open>balance = 1 - (max_channel - min_channel) / 255\<close>.
\<close>

theorem quality_score_spec:
  "0 \<le> get_ball_quality_score (B\<lparr>color := Color_init cr cg cb\<rparr>)
   \<and> get_ball_quality_score (B\<lparr>color := Color_init cr cg cb\<rparr>) \<le> 1
   \<and> get_ball_quality_score (B\<lparr>color := Color_init cr cg cb\<rparr>) =
       (if is_white (Color_init cr cg cb) then 0
        else if get_saturation (Color_init cr cg cb) < 1 / 10 then 1 / 10
        else min 1
          (get_brightness (Color_init cr cg cb)
           * sqrt (get_saturation (Color_init cr cg cb))
           * (7 / 10 + 3 / 10 *
               (1 - real_of_int
                      (max (max (r (Color_init cr cg cb)) (g (Color_init cr cg cb)))
                           (b (Color_init cr cg cb))
                       - min (min (r (Color_init cr cg cb)) (g (Color_init cr cg cb)))
                             (b (Color_init cr cg cb))) / 255))))
   \<and> (is_white (Color_init cr cg cb) \<longleftrightarrow>
        r (Color_init cr cg cb) > 200 \<and> g (Color_init cr cg cb) > 200
        \<and> b (Color_init cr cg cb) > 200)"
proof -
  let ?c = "Color_init cr cg cb"
  let ?B = "B\<lparr>color := ?c\<rparr>"
  have v: "valid_Color (color ?B)" by (simp add: valid_Color_init)
  have eq: "get_ball_quality_score ?B =
      (if is_white ?c then 0 else if get_saturation ?c < 1 / 10 then 1 / 10
       else min 1 (raw_quality ?c))"
    using quality_score_cases [OF v] by simp
  have rq: "0 \<le> raw_quality ?c" "raw_quality ?c \<le> 1"
    using raw_quality_bounds [of ?c] by (simp_all add: valid_Color_init)
  have lo: "0 \<le> get_ball_quality_score ?B" using eq rq by simp
  have hi: "get_ball_quality_score ?B \<le> 1" using eq rq by simp
  have w: "is_white ?c \<longleftrightarrow> r ?c > 200 \<and> g ?c > 200 \<and> b ?c > 200"
    by (simp add: is_white_def)
  show ?thesis using lo hi eq w by (simp add: raw_quality_def spread_def)
qed

theorem quality_score_spec_witness:
  "get_ball_quality_score (no_ball\<lparr>color := Color_init 255 255 255\<rparr>) = 0
   \<and> get_ball_quality_score (no_ball\<lparr>color := Color_init 100 100 100\<rparr>) = 1 / 10
   \<and> get_ball_quality_score (no_ball\<lparr>color := Color_init 255 0 0\<rparr>) = 7 / 30"
  using quality_score_spec [where B = no_ball and cr = 255 and cg = 255 and cb = 255]
    quality_score_spec [where B = no_ball and cr = 100 and cg = 100 and cb = 100]
    quality_score_spec [where B = no_ball and cr = 255 and cg = 0 and cb = 0]
  by (simp add: Color_init_def is_white_def get_saturation_def get_brightness_def)

section \<open>Ejecting from the inventory\<close>

lemma uniform_bounds:
  assumes "lo \<le> hi" "0 \<le> u" "u \<le> 1"
  shows "lo \<le> uniform lo hi u" "uniform lo hi u \<le> hi"
proof -
  have "0 \<le> (hi - lo) * u" using assms by simp
  then show "lo \<le> uniform lo hi u" by (simp add: uniform_def)
  have "(hi - lo) * u \<le> (hi - lo) * 1"
    using assms by (intro mult_left_mono) simp_all
  then show "uniform lo hi u \<le> hi" by (simp add: uniform_def)
qed

lemma eject_fail:
  "\<not> (0 \<le> i \<and> i < int (length (inventory s))) \<Longrightarrow>
     eject_ball_from_inventory s i d = (False, s)"
  by (auto simp: eject_ball_from_inventory_def)

lemma eject_ok:
  assumes "0 \<le> i" "i < int (length (inventory s))"
  shows "eject_ball_from_inventory s i d =
     (True, s\<lparr>inventory := take (nat i) (inventory s) @ drop (Suc (nat i)) (inventory s),
              heap := (heap s)(inventory s ! nat i :=
                 (heap s (inventory s ! nat i))
                   \<lparr>state := FREE,
                    x := uniform 50 (real_of_int (screen_width s - 50)) (u_x d),
                    y := uniform 50 150 (u_y d),
                    vx := uniform (- 2) 2 (u_ex d),
                    vy := uniform (- 2) 2 (u_ey d)\<rparr>),
              balls := balls s @ [inventory s ! nat i]\<rparr>)"
  using assms by (simp add: eject_ball_from_inventory_def Let_def upd_def)

text \<open>
  Claim C7. \<open>eject_ball_from_inventory\<close> succeeds exactly when
  \<open>0 \<le> index < len(inventory)\<close>. On success the entry at that index is deleted from the
  inventory, the entity behind it becomes FREE with position and velocity taken from the
  random draws and is appended to the active list, and nothing else changes; for unit
  draws in \<open>[0, 1]\<close> (and an arena at least 100 wide) the position lies in the band
  \<open>[50, width - 50] \<times> [50, 150]\<close> and the velocity components in \<open>[-2, 2]\<close>. On an
  index out of range it returns \<open>False\<close> and the state is unchanged.
\<close>

theorem eject_spec:
  "(fst (eject_ball_from_inventory s i d) \<longleftrightarrow> 0 \<le> i \<and> i < int (length (inventory s)))
   \<and> (\<not> (0 \<le> i \<and> i < int (length (inventory s))) \<longrightarrow>
        eject_ball_from_inventory s i d = (False, s))
   \<and> (0 \<le> i \<and> i < int (length (inventory s)) \<longrightarrow>
        snd (eject_ball_from_inventory s i d) =
          s\<lparr>inventory := take (nat i) (inventory s) @ drop (Suc (nat i)) (inventory s),
            heap := (heap s)(inventory s ! nat i :=
               (heap s (inventory s ! nat i))
                 \<lparr>state := FREE,
                  x := uniform 50 (real_of_int (screen_width s - 50)) (u_x d),
                  y := uniform 50 150 (u_y d),
                  vx := uniform (- 2) 2 (u_ex d),
                  vy := uniform (- 2) 2 (u_ey d)\<rparr>),
            balls := balls s @ [inventory s ! nat i]\<rparr>
        \<and> length (inventory (snd (eject_ball_from_inventory s i d))) + 1 = length (inventory s)
        \<and> (100 \<le> screen_width s \<and> 0 \<le> u_x d \<and> u_x d \<le> 1 \<longrightarrow>
             50 \<le> uniform 50 (real_of_int (screen_width s - 50)) (u_x d) \<and>
             uniform 50 (real_of_int (screen_width s - 50)) (u_x d)
               \<le> real_of_int (screen_width s - 50))
        \<and> (0 \<le> u_y d \<and> u_y d \<le> 1 \<longrightarrow>
             50 \<le> uniform 50 150 (u_y d) \<and> uniform 50 150 (u_y d) \<le> 150)
        \<and> (0 \<le> u_ex d \<and> u_ex d \<le> 1 \<longrightarrow>
             - 2 \<le> uniform (- 2) 2 (u_ex d) \<and> uniform (- 2) 2 (u_ex d) \<le> 2)
        \<and> (0 \<le> u_ey d \<and> u_ey d \<le> 1 \<longrightarrow>
             - 2 \<le> uniform (- 2) 2 (u_ey d) \<and> uniform (- 2) 2 (u_ey d) \<le> 2))"
proof -
  have bx: "100 \<le> screen_width s \<and> 0 \<le> u_x d \<and> u_x d \<le> 1 \<longrightarrow>
             50 \<le> uniform 50 (real_of_int (screen_width s - 50)) (u_x d) \<and>
             uniform 50 (real_of_int (screen_width s - 50)) (u_x d)
               \<le> real_of_int (screen_width s - 50)"
    using uniform_bounds [of 50 "real_of_int (screen_width s - 50)" "u_x d"] by auto
  have b_y: "0 \<le> u_y d \<and> u_y d \<le> 1 \<longrightarrow>
             50 \<le> uniform 50 150 (u_y d) \<and> uniform 50 150 (u_y d) \<le> 150"
    using uniform_bounds [of 50 150 "u_y d"] by auto
  have bv: "\<And>u. 0 \<le> u \<and> u \<le> 1 \<longrightarrow> - 2 \<le> uniform (- 2) 2 u \<and> uniform (- 2) 2 u \<le> 2"
    using uniform_bounds [of "- 2" 2] by auto
  show ?thesis
  proof (cases "0 \<le> i \<and> i < int (length (inventory s))")
    case False
    then show ?thesis using eject_fail [of i s d] by auto
  next
    case True
    then have ok: "0 \<le> i" "i < int (length (inventory s))" by simp_all
    have len: "length (take (nat i) (inventory s) @ drop (Suc (nat i)) (inventory s)) + 1
                 = length (inventory s)"
      using ok by (simp add: min_def) linarith
    show ?thesis
      unfolding eject_ok [OF ok] using True bx b_y bv [of "u_ex d"] bv [of "u_ey d"] len
      by (simp del: length_append length_take length_drop append_take_drop_id)
  qed
qed

theorem eject_spec_witness:
  "fst (eject_ball_from_inventory demo_inventory 0 demo_draws)
   \<and> inventory (snd (eject_ball_from_inventory demo_inventory 0 demo_draws)) = []
   \<and> balls (snd (eject_ball_from_inventory demo_inventory 0 demo_draws)) = [0]
   \<and> state (heap (snd (eject_ball_from_inventory demo_inventory 0 demo_draws)) 0) = FREE
   \<and> x (heap (snd (eject_ball_from_inventory demo_inventory 0 demo_draws)) 0) = 400
   \<and> y (heap (snd (eject_ball_from_inventory demo_inventory 0 demo_draws)) 0) = 100
   \<and> eject_ball_from_inventory demo_inventory 1 demo_draws = (False, demo_inventory)
   \<and> eject_ball_from_inventory demo_inventory (- 1) demo_draws = (False, demo_inventory)"
  using eject_spec [of demo_inventory 0 demo_draws] eject_spec [of demo_inventory 1 demo_draws]
    eject_spec [of demo_inventory "- 1" demo_draws]
  by (simp add: demo_inventory_def demo_draws_def demo_ball_def GameLogic_init_def uniform_def)

section \<open>The simulation step\<close>

lemma frame_refl: "frame s s"
  by (simp add: frame_def)

lemma frame_trans: "frame s s1 \<Longrightarrow> frame s1 s2 \<Longrightarrow> frame s s2"
  by (simp add: frame_def)

lemma frame_upd:
  assumes "state (heap s a) = FREE"
    and "state (f (heap s a)) = FREE" "ball_id (f (heap s a)) = ball_id (heap s a)"
      "radius (f (heap s a)) = radius (heap s a)"
  shows "frame s (upd s a f)"
  using assms by (simp add: frame_def)

lemma frame_physics:
  "state (heap s a) = FREE \<Longrightarrow> frame s (update_ball_physics s a dt)"
  unfolding update_ball_physics_def by (rule frame_upd) (simp_all add: Let_def)

lemma frame_boundaries:
  "state (heap s a) = FREE \<Longrightarrow> frame s (check_boundaries s a)"
  unfolding check_boundaries_def by (rule frame_upd) (simp_all add: Let_def)

lemma frame_collide:
  "state (heap s a) = FREE \<Longrightarrow> frame s (collide s a c)"
  by (simp add: frame_def collide_def mix_ball_colors_def Let_def)

lemma frame_collisions_fold:
  "state (heap s a) = FREE \<Longrightarrow> frame s (fold (\<lambda>other s'. collide s' a other) xs s)"
proof (induction xs arbitrary: s)
  case Nil
  show ?case by (simp add: frame_refl)
next
  case (Cons c xs)
  have f1: "frame s (collide s a c)" using Cons.prems by (rule frame_collide)
  then have "state (heap (collide s a c) a) = FREE"
    using Cons.prems by (simp add: frame_def)
  then have "frame (collide s a c) (fold (\<lambda>other s'. collide s' a other) xs (collide s a c))"
    by (rule Cons.IH)
  with f1 show ?case by (simp add: frame_trans)
qed

lemma frame_collisions:
  "state (heap s a) = FREE \<Longrightarrow> frame s (check_collisions s a)"
  unfolding check_collisions_def by (rule frame_collisions_fold)

lemma frame_update_ball: "frame s (update_ball dt a s)"
proof (cases "state (heap s a) = FREE")
  case False
  then show ?thesis by (simp add: update_ball_def frame_refl)
next
  case True
  have f1: "frame s (update_ball_physics s a dt)" using True by (rule frame_physics)
  then have s1: "state (heap (update_ball_physics s a dt) a) = FREE"
    using True by (simp add: frame_def)
  have f2: "frame (update_ball_physics s a dt) (check_collisions (update_ball_physics s a dt) a)"
    using s1 by (rule frame_collisions)
  then have s2: "state (heap (check_collisions (update_ball_physics s a dt) a) a) = FREE"
    using s1 by (simp add: frame_def)
  have f3: "frame (check_collisions (update_ball_physics s a dt) a)
              (check_boundaries (check_collisions (update_ball_physics s a dt) a) a)"
    using s2 by (rule frame_boundaries)
  show ?thesis using True frame_trans [OF frame_trans [OF f1 f2] f3]
    by (simp add: update_ball_def)
qed

lemma frame_update_fold: "frame s (fold (update_ball dt) xs s)"
proof (induction xs arbitrary: s)
  case Nil
  show ?case by (simp add: frame_refl)
next
  case (Cons a xs)
  show ?case using frame_trans [OF frame_update_ball Cons.IH] by simp
qed

lemma frame_update: "frame s (update s dt)"
  unfolding update_def by (rule frame_update_fold)

lemma physics_heap:
  "heap (update_ball_physics s a dt) =
     (heap s)(a := (heap s a)
        \<lparr>x := x (heap s a) + vx (heap s a) * dt,
         y := y (heap s a) + (vy (heap s a) + gravity s * dt) * dt,
         vx := vx (heap s a) * friction s,
         vy := (vy (heap s a) + gravity s * dt) * friction s\<rparr>)"
  by (simp add: update_ball_physics_def Let_def)

lemma collide_self: "collide s a a = s"
  by (simp add: collide_def)

lemma boundaries_inside:
  assumes "\<not> x (heap s a) - radius (heap s a) < 0"
    "\<not> x (heap s a) + radius (heap s a) > real_of_int (screen_width s)"
    "\<not> y (heap s a) - radius (heap s a) < 0"
    "\<not> y (heap s a) + radius (heap s a) > real_of_int (screen_height s)"
  shows "heap (check_boundaries s a) = heap s"
  using assms by (simp add: check_boundaries_def Let_def)

text \<open>
  Claim C4. \<open>update\<close> runs over the active list and, for each entity whose state is
  FREE, applies \<open>_update_ball_physics\<close> first, then the collision pass, then the boundary
  pass. The physics adds gravity to \<open>vy\<close>, moves \<open>x\<close> by the old \<open>vx\<close> and \<open>y\<close> by
  the new \<open>vy\<close>, and only then multiplies both velocity components by the friction. An
  entity that is not FREE is skipped, and no object whose state is not FREE is changed by
  \<open>update\<close> at all. For a single FREE entity that stays inside the arena the whole of
  \<open>update\<close> is exactly this integration.
\<close>

theorem update_integration:
  "heap (update_ball_physics s a dt) =
     (heap s)(a := (heap s a)
        \<lparr>x := x (heap s a) + vx (heap s a) * dt,
         y := y (heap s a) + (vy (heap s a) + gravity s * dt) * dt,
         vx := vx (heap s a) * friction s,
         vy := (vy (heap s a) + gravity s * dt) * friction s\<rparr>)
   \<and> update s dt = fold (update_ball dt) (balls s) s
   \<and> (state (heap s a) = FREE \<longrightarrow>
        update_ball dt a s =
          check_boundaries (check_collisions (update_ball_physics s a dt) a) a)
   \<and> (state (heap s a) \<noteq> FREE \<longrightarrow> update_ball dt a s = s)
   \<and> (state (heap s c) \<noteq> FREE \<longrightarrow> heap (update s dt) c = heap s c)
   \<and> (balls s = [a] \<and> state (heap s a) = FREE
        \<and> 0 \<le> x (heap s a) + vx (heap s a) * dt - radius (heap s a)
        \<and> x (heap s a) + vx (heap s a) * dt + radius (heap s a) \<le> real_of_int (screen_width s)
        \<and> 0 \<le> y (heap s a) + (vy (heap s a) + gravity s * dt) * dt - radius (heap s a)
        \<and> y (heap s a) + (vy (heap s a) + gravity s * dt) * dt + radius (heap s a)
            \<le> real_of_int (screen_height s) \<longrightarrow>
        heap (update s dt) =
          (heap s)(a := (heap s a)
             \<lparr>x := x (heap s a) + vx (heap s a) * dt,
              y := y (heap s a) + (vy (heap s a) + gravity s * dt) * dt,
              vx := vx (heap s a) * friction s,
              vy := (vy (heap s a) + gravity s * dt) * friction s\<rparr>))"
proof -
  have nonfree: "state (heap s c) \<noteq> FREE \<longrightarrow> heap (update s dt) c = heap s c"
    using frame_update [of s dt] by (simp add: frame_def)
  have single: "heap (update s dt) = heap (update_ball_physics s a dt)"
    if b: "balls s = [a]" and f: "state (heap s a) = FREE"
      and i1: "0 \<le> x (heap s a) + vx (heap s a) * dt - radius (heap s a)"
      and i2: "x (heap s a) + vx (heap s a) * dt + radius (heap s a) \<le> real_of_int (screen_width s)"
      and i3: "0 \<le> y (heap s a) + (vy (heap s a) + gravity s * dt) * dt - radius (heap s a)"
      and i4: "y (heap s a) + (vy (heap s a) + gravity s * dt) * dt + radius (heap s a)
            \<le> real_of_int (screen_height s)"
  proof -
    let ?s1 = "update_ball_physics s a dt"
    have fr: "frame s ?s1" using f by (rule frame_physics)
    have c: "check_collisions ?s1 a = ?s1"
      using fr b by (simp add: check_collisions_def frame_def collide_self)
    have "heap (check_boundaries ?s1 a) = heap ?s1"
    proof (rule boundaries_inside)
      show "\<not> x (heap ?s1 a) - radius (heap ?s1 a) < 0" using i1 by (simp add: physics_heap)
      show "\<not> x (heap ?s1 a) + radius (heap ?s1 a) > real_of_int (screen_width ?s1)"
        using i2 fr by (simp add: physics_heap frame_def)
      show "\<not> y (heap ?s1 a) - radius (heap ?s1 a) < 0" using i3 by (simp add: physics_heap)
      show "\<not> y (heap ?s1 a) + radius (heap ?s1 a) > real_of_int (screen_height ?s1)"
        using i4 fr by (simp add: physics_heap frame_def)
    qed
    then show ?thesis using b f c by (simp add: update_def update_ball_def)
  qed
  show ?thesis
    using nonfree single physics_heap [of s a dt]
    by (simp add: update_def update_ball_def)
qed


theorem update_integration_witness:
  "state (heap (demo_game (demo_ball 100 100 3 (- 2) FREE)) 0) = FREE
   \<and> balls (demo_game (demo_ball 100 100 3 (- 2) FREE)) = [0]
   \<and> x (heap (update (demo_game (demo_ball 100 100 3 (- 2) FREE)) 1) 0) = 103
   \<and> y (heap (update (demo_game (demo_ball 100 100 3 (- 2) FREE)) 1) 0) = 982 / 10
   \<and> vx (heap (update (demo_game (demo_ball 100 100 3 (- 2) FREE)) 1) 0) = 294 / 100
   \<and> vy (heap (update (demo_game (demo_ball 100 100 3 (- 2) FREE)) 1) 0) = - (1764 / 1000)
   \<and> state (heap (demo_game (demo_ball 100 100 3 (- 2) BEING_DRAGGED)) 0) \<noteq> FREE
   \<and> heap (update (demo_game (demo_ball 100 100 3 (- 2) BEING_DRAGGED)) 1) 0
       = demo_ball 100 100 3 (- 2) BEING_DRAGGED"
proof -
  note free = update_integration [where s = "demo_game (demo_ball 100 100 3 (- 2) FREE)"
      and a = 0 and dt = 1 and c = 0]
  note dragged = update_integration [where s = "demo_game (demo_ball 100 100 3 (- 2) BEING_DRAGGED)"
      and a = 0 and dt = 1 and c = 0]
  show ?thesis
    using free [THEN conjunct2, THEN conjunct2, THEN conjunct2, THEN conjunct2, THEN conjunct2]
      dragged [THEN conjunct2, THEN conjunct2, THEN conjunct2, THEN conjunct2, THEN conjunct1]
    by (simp add: demo_game_def demo_ball_def GameLogic_init_def)
qed

lemma collide_overlap:
  assumes ne: "heap s c \<noteq> heap s a" and ac: "a \<noteq> c"
    and fc: "state (heap s c) = FREE"
    and d: "sqrt ((x (heap s a) - x (heap s c))\<^sup>2 + (y (heap s a) - y (heap s c))\<^sup>2) = dd"
    and lt: "dd < radius (heap s a) + radius (heap s c)" and pos: "0 < dd"
  shows "heap (collide s a c) =
     (heap s)
       (a := (heap s a)
          \<lparr>color := mix_with (color (heap s a)) (color (heap s c)),
           x := x (heap s a)
                + (x (heap s a) - x (heap s c)) / dd
                  * (radius (heap s a) + radius (heap s c) - dd) * (5 / 10),
           y := y (heap s a)
                + (y (heap s a) - y (heap s c)) / dd
                  * (radius (heap s a) + radius (heap s c) - dd) * (5 / 10)\<rparr>,
        c := (heap s c)
          \<lparr>color := mix_with (color (heap s a)) (color (heap s c)),
           x := x (heap s c)
                - (x (heap s a) - x (heap s c)) / dd
                  * (radius (heap s a) + radius (heap s c) - dd) * (5 / 10),
           y := y (heap s c)
                - (y (heap s a) - y (heap s c)) / dd
                  * (radius (heap s a) + radius (heap s c) - dd) * (5 / 10)\<rparr>)"
  using assms by (simp add: collide_def mix_ball_colors_def Let_def fun_upd_twist)

lemma sqrt_scaled:
  "sqrt ((4 / 3 * p)\<^sup>2 + (4 / 3 * q)\<^sup>2) = 4 / 3 * sqrt (p\<^sup>2 + q\<^sup>2)"
proof -
  have "(4 / 3 * p)\<^sup>2 + (4 / 3 * q)\<^sup>2 = (4 / 3)\<^sup>2 * (p\<^sup>2 + q\<^sup>2)"
    by (simp add: power2_eq_square algebra_simps)
  then have "sqrt ((4 / 3 * p)\<^sup>2 + (4 / 3 * q)\<^sup>2) = sqrt ((4 / 3)\<^sup>2) * sqrt (p\<^sup>2 + q\<^sup>2)"
    by (simp only: real_sqrt_mult)
  then show ?thesis by simp
qed

lemma collide_pair:
  assumes fc: "state (heap s c) = FREE"
    and ra: "radius (heap s a) = 20" and rc: "radius (heap s c) = 20"
    and d: "sqrt ((x (heap s a) - x (heap s c))\<^sup>2 + (y (heap s a) - y (heap s c))\<^sup>2) = 30"
  shows "heap (collide s a c) =
     (heap s)
       (a := (heap s a)
          \<lparr>color := mix_with (color (heap s a)) (color (heap s c)),
           x := x (heap s a) + (x (heap s a) - x (heap s c)) / 6,
           y := y (heap s a) + (y (heap s a) - y (heap s c)) / 6\<rparr>,
        c := (heap s c)
          \<lparr>color := mix_with (color (heap s a)) (color (heap s c)),
           x := x (heap s c) - (x (heap s a) - x (heap s c)) / 6,
           y := y (heap s c) - (y (heap s a) - y (heap s c)) / 6\<rparr>)"
proof -
  have ne: "heap s c \<noteq> heap s a"
  proof
    assume "heap s c = heap s a"
    then have "sqrt ((x (heap s a) - x (heap s c))\<^sup>2 + (y (heap s a) - y (heap s c))\<^sup>2) = 0"
      by simp
    with d show False by simp
  qed
  then have ac: "a \<noteq> c" by auto
  have e: "\<And>p::real. p / 30 * (20 + 20 - 30) * (5 / 10) = p / 6" by simp
  have big: "heap (collide s a c) = (heap s)
       (a := (heap s a)
          \<lparr>color := mix_with (color (heap s a)) (color (heap s c)),
           x := x (heap s a)
                + (x (heap s a) - x (heap s c)) / 30
                  * (radius (heap s a) + radius (heap s c) - 30) * (5 / 10),
           y := y (heap s a)
                + (y (heap s a) - y (heap s c)) / 30
                  * (radius (heap s a) + radius (heap s c) - 30) * (5 / 10)\<rparr>,
        c := (heap s c)
          \<lparr>color := mix_with (color (heap s a)) (color (heap s c)),
           x := x (heap s c)
                - (x (heap s a) - x (heap s c)) / 30
                  * (radius (heap s a) + radius (heap s c) - 30) * (5 / 10),
           y := y (heap s c)
                - (y (heap s a) - y (heap s c)) / 30
                  * (radius (heap s a) + radius (heap s c) - 30) * (5 / 10)\<rparr>)"
    using ne ac fc d by (intro collide_overlap) (simp_all add: ra rc)
  show ?thesis by (rule big [unfolded ra rc e])
qed


lemma sqrt_900: "sqrt 900 = 30"
  by (rule real_sqrt_unique) simp_all

text \<open>
  Claim C3. Two FREE entities of radius 20 whose centres are 30 apart are the only active
  entities. One collision pass for one of them moves the centres apart along the line
  through them (the difference vector is scaled by 4/3), so that they are 40 apart, and
  sets the color of both to the mix of the two original colors, which does not depend on
  the order of the two.
\<close>

theorem collision_separation:
  assumes two: "balls s = [a, c] \<or> balls s = [c, a]"
    and fa: "state (heap s a) = FREE" and fc: "state (heap s c) = FREE"
    and ra: "radius (heap s a) = 20" and rc: "radius (heap s c) = 20"
    and d: "sqrt ((x (heap s a) - x (heap s c))\<^sup>2 + (y (heap s a) - y (heap s c))\<^sup>2) = 30"
  shows "x (heap (check_collisions s a) a) - x (heap (check_collisions s a) c)
           = 4 / 3 * (x (heap s a) - x (heap s c))
       \<and> y (heap (check_collisions s a) a) - y (heap (check_collisions s a) c)
           = 4 / 3 * (y (heap s a) - y (heap s c))
       \<and> sqrt ((x (heap (check_collisions s a) a) - x (heap (check_collisions s a) c))\<^sup>2
               + (y (heap (check_collisions s a) a) - y (heap (check_collisions s a) c))\<^sup>2) = 40
       \<and> color (heap (check_collisions s a) a) = mix_with (color (heap s a)) (color (heap s c))
       \<and> color (heap (check_collisions s a) c) = mix_with (color (heap s a)) (color (heap s c))
       \<and> mix_with (color (heap s a)) (color (heap s c))
           = mix_with (color (heap s c)) (color (heap s a))"
proof -
  let ?s' = "check_collisions s a"
  have ac: "a \<noteq> c"
  proof
    assume "a = c"
    then have "sqrt ((x (heap s a) - x (heap s c))\<^sup>2 + (y (heap s a) - y (heap s c))\<^sup>2) = 0"
      by simp
    with d show False by simp
  qed
  have "?s' = collide s a c"
    using two by (auto simp: check_collisions_def collide_self)
  then have h: "heap ?s' =
     (heap s)
       (a := (heap s a)
          \<lparr>color := mix_with (color (heap s a)) (color (heap s c)),
           x := x (heap s a) + (x (heap s a) - x (heap s c)) / 6,
           y := y (heap s a) + (y (heap s a) - y (heap s c)) / 6\<rparr>,
        c := (heap s c)
          \<lparr>color := mix_with (color (heap s a)) (color (heap s c)),
           x := x (heap s c) - (x (heap s a) - x (heap s c)) / 6,
           y := y (heap s c) - (y (heap s a) - y (heap s c)) / 6\<rparr>)"
    using collide_pair [OF fc ra rc d] by simp
  have dx: "x (heap ?s' a) - x (heap ?s' c) = 4 / 3 * (x (heap s a) - x (heap s c))"
    using ac by (simp add: h field_simps)
  have dy: "y (heap ?s' a) - y (heap ?s' c) = 4 / 3 * (y (heap s a) - y (heap s c))"
    using ac by (simp add: h field_simps)
  have dist': "sqrt ((x (heap ?s' a) - x (heap ?s' c))\<^sup>2
                + (y (heap ?s' a) - y (heap ?s' c))\<^sup>2) = 40"
    unfolding dx dy sqrt_scaled d by simp
  have ca: "color (heap ?s' a) = mix_with (color (heap s a)) (color (heap s c))"
    using ac by (simp add: h)
  have cc: "color (heap ?s' c) = mix_with (color (heap s a)) (color (heap s c))"
    using ac by (simp add: h)
  show ?thesis using dx dy dist' ca cc mix_with_commute by blast
qed

theorem collision_separation_witness:
  "balls demo_pair = [0, 1]
   \<and> state (heap demo_pair 0) = FREE \<and> state (heap demo_pair 1) = FREE
   \<and> radius (heap demo_pair 0) = 20 \<and> radius (heap demo_pair 1) = 20
   \<and> sqrt ((x (heap demo_pair 0) - x (heap demo_pair 1))\<^sup>2
           + (y (heap demo_pair 0) - y (heap demo_pair 1))\<^sup>2) = 30
   \<and> x (heap (check_collisions demo_pair 0) 0) - x (heap (check_collisions demo_pair 0) 1) = - 40
   \<and> y (heap (check_collisions demo_pair 0) 0) - y (heap (check_collisions demo_pair 0) 1) = 0
   \<and> sqrt ((x (heap (check_collisions demo_pair 0) 0) - x (heap (check_collisions demo_pair 0) 1))\<^sup>2
         + (y (heap (check_collisions demo_pair 0) 0) - y (heap (check_collisions demo_pair 0) 1))\<^sup>2)
       = 40
   \<and> color (heap (check_collisions demo_pair 0) 0) = \<lparr>r = 127, g = 0, b = 127\<rparr>
   \<and> color (heap (check_collisions demo_pair 0) 1) = \<lparr>r = 127, g = 0, b = 127\<rparr>"
proof -
  have pre: "balls demo_pair = [0, 1] \<or> balls demo_pair = [1, 0]"
    "state (heap demo_pair 0) = FREE" "state (heap demo_pair 1) = FREE"
    "radius (heap demo_pair 0) = 20" "radius (heap demo_pair 1) = 20"
    "sqrt ((x (heap demo_pair 0) - x (heap demo_pair 1))\<^sup>2
           + (y (heap demo_pair 0) - y (heap demo_pair 1))\<^sup>2) = 30"
    by (simp_all add: demo_pair_def demo_ball_def GameLogic_init_def sqrt_900)
  have vals: "balls demo_pair = [0, 1]"
    "x (heap demo_pair 0) - x (heap demo_pair 1) = - 30"
    "y (heap demo_pair 0) - y (heap demo_pair 1) = 0"
    "mix_with (color (heap demo_pair 0)) (color (heap demo_pair 1)) = \<lparr>r = 127, g = 0, b = 127\<rparr>"
    by (simp_all add: demo_pair_def demo_ball_def GameLogic_init_def mix_with_def
        Color_init_def int_trunc_def)
  show ?thesis
    using collision_separation [OF pre] pre(2-6) vals by simp
qed

section \<open>Invariants of the drag lifecycle\<close>

subsection \<open>List operations and the drag loop\<close>

lemma py_in_iff: "py_in h v xs \<longleftrightarrow> (\<exists>a \<in> set xs. h a = v)"
  by (simp add: py_in_def list_ex_iff)

lemma py_remove_only:
  "a \<in> set xs \<Longrightarrow> h a = v \<Longrightarrow> (\<forall>c \<in> set xs. c \<noteq> a \<longrightarrow> h c \<noteq> v) \<Longrightarrow>
     py_remove h v xs = Inr (remove1 a xs)"
  by (induction xs) auto

lemma start_drag_loop_cases:
  "start_drag_loop s mouse_x mouse_y xs = (False, s) \<or>
   (\<exists>a \<in> set xs. state (heap s a) = FREE \<and>
      start_drag_loop s mouse_x mouse_y xs =
        (True, (upd s a (\<lambda>B. B\<lparr>state := BEING_DRAGGED\<rparr>))
                 \<lparr>dragged_ball := Some a,
                  drag_offset_x := x (heap s a) - mouse_x,
                  drag_offset_y := y (heap s a) - mouse_y\<rparr>))"
  by (induction xs) auto

lemma start_drag_cases:
  "start_drag s mouse_x mouse_y = (False, s) \<or>
   (\<exists>a \<in> set (balls s). state (heap s a) = FREE \<and>
      start_drag s mouse_x mouse_y =
        (True, (upd s a (\<lambda>B. B\<lparr>state := BEING_DRAGGED\<rparr>))
                 \<lparr>dragged_ball := Some a,
                  drag_offset_x := x (heap s a) - mouse_x,
                  drag_offset_y := y (heap s a) - mouse_y\<rparr>))"
  using start_drag_loop_cases [of s mouse_x mouse_y "rev (balls s)"]
  by (simp add: start_drag_def)

subsection \<open>Preservation of the invariants\<close>

lemma inv_init: "game_inv (GameLogic_init w h)"
  by (simp add: game_inv_def GameLogic_init_def)

lemma inv_clear: "game_inv s \<Longrightarrow> game_inv (clear_all_balls s)"
  by (simp add: game_inv_def clear_all_balls_def)

lemma inv_frame: "game_inv s \<Longrightarrow> frame s s' \<Longrightarrow> game_inv s'"
  by (simp add: game_inv_def frame_def)

lemma inv_update: "game_inv s \<Longrightarrow> game_inv (update s dt)"
  using frame_update by (rule inv_frame [rotated])

lemma inv_add:
  assumes "game_inv s" "add_ball s x0 y0 radius0 d = Inr (a, s')"
  shows "game_inv s'"
proof -
  obtain c where s': "s' = s\<lparr>heap := (heap s)(next_ref s :=
        Ball_init x0 y0 (uniform (- 3) 3 (u_vx d)) (uniform (- 3) 3 (u_vy d)) radius0 c FREE 0 (k_id d)),
      next_ref := Suc (next_ref s), balls := balls s @ [next_ref s]\<rparr>"
    using assms(2) by (auto simp: add_ball_def Let_def split: sum.splits)
  have fresh: "next_ref s \<notin> set (balls s)" "next_ref s \<notin> set (inventory s)"
    using assms(1) by (auto simp: game_inv_def)
  show ?thesis
    using assms(1) fresh unfolding s' game_inv_def
    by (auto simp: Ball_init_def less_Suc_eq)
qed

lemma inv_start:
  assumes "game_inv s" "dragged_ball s = None"
  shows "game_inv (snd (start_drag s mouse_x mouse_y))"
proof -
  from start_drag_cases [of s mouse_x mouse_y] show ?thesis
  proof
    assume "start_drag s mouse_x mouse_y = (False, s)"
    then show ?thesis using assms(1) by simp
  next
    assume "\<exists>a \<in> set (balls s). state (heap s a) = FREE \<and>
      start_drag s mouse_x mouse_y =
        (True, (upd s a (\<lambda>B. B\<lparr>state := BEING_DRAGGED\<rparr>))
                 \<lparr>dragged_ball := Some a,
                  drag_offset_x := x (heap s a) - mouse_x,
                  drag_offset_y := y (heap s a) - mouse_y\<rparr>)"
    then obtain a where a: "a \<in> set (balls s)" "state (heap s a) = FREE"
      and eq: "start_drag s mouse_x mouse_y =
        (True, (upd s a (\<lambda>B. B\<lparr>state := BEING_DRAGGED\<rparr>))
                 \<lparr>dragged_ball := Some a,
                  drag_offset_x := x (heap s a) - mouse_x,
                  drag_offset_y := y (heap s a) - mouse_y\<rparr>)"
      by blast
    show ?thesis
      using assms a unfolding eq game_inv_def by auto
  qed
qed

lemma inv_drag: "game_inv s \<Longrightarrow> game_inv (drag_ball s mouse_x mouse_y)"
  by (auto simp: game_inv_def drag_ball_def Let_def split: option.splits)

lemma remove_nth_distinct:
  "distinct xs \<Longrightarrow> n < length xs \<Longrightarrow> take n xs @ drop (Suc n) xs = remove1 (xs ! n) xs"
proof (induction xs arbitrary: n)
  case Nil
  then show ?case by simp
next
  case (Cons a xs)
  then show ?case by (cases n) auto
qed

lemma inv_eject:
  assumes "game_inv s"
  shows "game_inv (snd (eject_ball_from_inventory s i d))"
proof (cases "0 \<le> i \<and> i < int (length (inventory s))")
  case False
  then show ?thesis using assms by (simp add: eject_fail)
next
  case True
  then have ok: "0 \<le> i" "i < int (length (inventory s))" by simp_all
  define n where "n = nat i"
  have n: "n < length (inventory s)" using ok by (simp add: n_def)
  define a where "a = inventory s ! n"
  have ain: "a \<in> set (inventory s)" using n by (simp add: a_def)
  have inv': "take n (inventory s) @ drop (Suc n) (inventory s) = remove1 a (inventory s)"
    using assms n unfolding a_def game_inv_def by (simp add: remove_nth_distinct)
  show ?thesis
    unfolding eject_ok [OF ok] n_def [symmetric] a_def [symmetric] inv'
    using assms ain by (auto simp: game_inv_def)
qed


lemma inv_dragged:
  assumes "game_inv s" "dragged_ball s = Some a"
  shows "a \<in> set (balls s)" "state (heap s a) = BEING_DRAGGED" "a \<notin> set (inventory s)"
    "\<forall>c \<in> set (balls s). c \<noteq> a \<longrightarrow> state (heap s c) = FREE"
proof -
  have iff: "\<And>c. dragged_ball s = Some c \<longleftrightarrow> c \<in> set (balls s) \<and> state (heap s c) = BEING_DRAGGED"
    using assms(1) unfolding game_inv_def by blast
  show a: "a \<in> set (balls s)" "state (heap s a) = BEING_DRAGGED"
    using iff [of a] assms(2) by simp_all
  show "a \<notin> set (inventory s)"
    using a(1) assms(1) unfolding game_inv_def by blast
  show "\<forall>c \<in> set (balls s). c \<noteq> a \<longrightarrow> state (heap s c) = FREE"
  proof (intro ballI impI)
    fix c assume c: "c \<in> set (balls s)" "c \<noteq> a"
    have "state (heap s c) \<noteq> IN_INVENTORY" using c(1) assms(1) unfolding game_inv_def by blast
    moreover have "state (heap s c) \<noteq> BEING_DRAGGED"
      using iff [of c] c assms(2) by auto
    ultimately show "state (heap s c) = FREE" by (cases "state (heap s c)") simp_all
  qed
qed

lemma delete_ball_inv:
  assumes "game_inv s" "dragged_ball s = Some a"
  shows "delete_ball s a = Inr (s\<lparr>balls := remove1 a (balls s)\<rparr>)"
proof -
  note d = inv_dragged [OF assms]
  have others: "\<forall>c \<in> set (balls s). c \<noteq> a \<longrightarrow> heap s c \<noteq> heap s a"
    using d(2,4) by auto
  have rem: "py_remove (heap s) (heap s a) (balls s) = Inr (remove1 a (balls s))"
    using d(1) others by (intro py_remove_only) simp_all
  have isin: "py_in (heap s) (heap s a) (balls s)"
    using d(1) by (auto simp: py_in_iff)
  have "\<forall>c \<in> set (inventory s). state (heap s c) = IN_INVENTORY"
    using assms(1) unfolding game_inv_def by blast
  then have notin: "\<not> py_in (heap s) (heap s a) (inventory s)"
    using d(2) by (auto simp: py_in_iff)
  show ?thesis using rem isin notin by (simp add: delete_ball_def)
qed

lemma add_to_inventory_inv:
  assumes "game_inv s" "dragged_ball s = Some a"
  shows "add_to_inventory s a =
     Inr (s\<lparr>heap := (heap s)(a := (heap s a)\<lparr>state := IN_INVENTORY\<rparr>),
            balls := remove1 a (balls s), inventory := inventory s @ [a]\<rparr>)"
proof -
  note d = inv_dragged [OF assms]
  let ?h = "(heap s)(a := (heap s a)\<lparr>state := IN_INVENTORY\<rparr>)"
  have others: "\<forall>c \<in> set (balls s). c \<noteq> a \<longrightarrow> ?h c \<noteq> ?h a"
  proof (intro ballI impI)
    fix c assume c: "c \<in> set (balls s)" "c \<noteq> a"
    then have "state (heap s c) = FREE" using d(4) by blast
    then have "state (?h c) \<noteq> state (?h a)" using c(2) by simp
    then show "?h c \<noteq> ?h a" by metis
  qed
  have rem: "py_remove ?h (?h a) (balls s) = Inr (remove1 a (balls s))"
    using d(1) others by (intro py_remove_only) simp_all
  show ?thesis using rem by (simp add: add_to_inventory_def Let_def upd_def)
qed

lemma end_drag_result:
  assumes "game_inv s" "dragged_ball s = Some a"
  shows "end_drag s mouse_x mouse_y =
     Inr (if is_in_delete_zone s mouse_x mouse_y then
            (True, s\<lparr>balls := remove1 a (balls s), dragged_ball := None\<rparr>)
          else if sqrt ((mouse_x - real_of_int (screen_width s - 100))\<^sup>2 + (mouse_y - 50)\<^sup>2) \<le> 30 then
            (True, s\<lparr>heap := (heap s)(a := (heap s a)\<lparr>state := IN_INVENTORY\<rparr>),
                     balls := remove1 a (balls s), inventory := inventory s @ [a],
                     dragged_ball := None\<rparr>)
          else
            (False, s\<lparr>heap := (heap s)(a := (heap s a)
                         \<lparr>state := FREE,
                          vx := (mouse_x - x (heap s a)) * (1 / 10),
                          vy := (mouse_y - y (heap s a)) * (1 / 10)\<rparr>),
                      dragged_ball := None\<rparr>))"
  using assms(2) delete_ball_inv [OF assms] add_to_inventory_inv [OF assms]
  by (simp add: end_drag_def Let_def upd_def)


lemma inv_end:
  assumes inv: "game_inv s" and e: "end_drag s mouse_x mouse_y = Inr (ok, s')"
  shows "game_inv s'"
proof (cases "dragged_ball s")
  case None
  then have "s' = s" using e by (simp add: end_drag_def)
  then show ?thesis using inv by simp
next
  case (Some a)
  note d = inv_dragged [OF inv Some]
  note res = end_drag_result [OF inv Some, of mouse_x mouse_y]
  consider (del) "s' = s\<lparr>balls := remove1 a (balls s), dragged_ball := None\<rparr>"
    | (inv) "s' = s\<lparr>heap := (heap s)(a := (heap s a)\<lparr>state := IN_INVENTORY\<rparr>),
                     balls := remove1 a (balls s), inventory := inventory s @ [a],
                     dragged_ball := None\<rparr>"
    | (ret) "s' = s\<lparr>heap := (heap s)(a := (heap s a)
                         \<lparr>state := FREE,
                          vx := (mouse_x - x (heap s a)) * (1 / 10),
                          vy := (mouse_y - y (heap s a)) * (1 / 10)\<rparr>),
                      dragged_ball := None\<rparr>"
    using e res by (auto split: if_splits)
  then show ?thesis
  proof cases
    case del
    show ?thesis unfolding del using inv d by (auto simp: game_inv_def)
  next
    case inv
    show ?thesis unfolding inv using assms(1) d by (auto simp: game_inv_def)
  next
    case ret
    show ?thesis unfolding ret using inv d by (auto simp: game_inv_def)
  qed
qed

lemma guarded_reachable_inv: "guarded_reachable s \<Longrightarrow> game_inv s"
proof (induction rule: guarded_reachable.induct)
  case (gr_init w h)
  show ?case by (rule inv_init)
next
  case (gr_add s x0 y0 radius0 d a s')
  then show ?case by (blast intro: inv_add)
next
  case (gr_update s dt)
  then show ?case by (blast intro: inv_update)
next
  case (gr_start s mouse_x mouse_y)
  then show ?case by (blast intro: inv_start)
next
  case (gr_drag s mouse_x mouse_y)
  then show ?case by (blast intro: inv_drag)
next
  case (gr_end s mouse_x mouse_y ok s')
  then show ?case by (blast intro: inv_end)
next
  case (gr_eject s i d)
  then show ?case by (blast intro: inv_eject)
next
  case (gr_clear s)
  then show ?case by (blast intro: inv_clear)
qed

lemma start_drag_loop_ignores_drag:
  "start_drag_loop (s\<lparr>dragged_ball := q\<rparr>) mouse_x mouse_y xs =
     (if fst (start_drag_loop s mouse_x mouse_y xs) then start_drag_loop s mouse_x mouse_y xs
      else (False, s\<lparr>dragged_ball := q\<rparr>))"
  by (induction xs) (simp_all add: upd_def)


lemma sqrt_le_30: "sqrt v \<le> 30 \<longleftrightarrow> v \<le> 900"
  using real_sqrt_le_iff [of v 900] by (simp add: sqrt_900)

lemma two_balls_added:
  "add_ball (GameLogic_init 800 600) 100 100 20 demo_add = Inr (0, one_ball)"
  "add_ball one_ball 300 100 20 demo_add = Inr (1, two_balls)"
  by (simp_all add: add_ball_def generate_random_color_def Let_def randint_def uniform_def
      Color_init_def get_brightness_def Ball_init_def demo_add_def one_ball_def two_balls_def
      added_ball_def GameLogic_init_def)

text \<open>
  Claim C1, as the code has it. \<open>start_drag\<close> does not look at the dragged reference:
  whether it succeeds is the same with and without a drag in progress. In every state that
  a new game reaches by calls in which \<open>start_drag\<close> is made only while the dragged
  reference is \<open>None\<close>, at most one entity of the active list and the inventory has
  state BEING_DRAGGED, such an entity is the dragged reference, and the dragged reference
  points to an active entity with state BEING_DRAGGED.
\<close>

theorem drag_invariant_guarded:
  assumes "guarded_reachable s"
  shows "(a \<in> set (balls s) \<union> set (inventory s) \<and> c \<in> set (balls s) \<union> set (inventory s)
          \<and> state (heap s a) = BEING_DRAGGED \<and> state (heap s c) = BEING_DRAGGED \<longrightarrow> a = c)
       \<and> (a \<in> set (balls s) \<union> set (inventory s) \<and> state (heap s a) = BEING_DRAGGED \<longrightarrow>
            dragged_ball s = Some a)
       \<and> (dragged_ball s = Some a \<longrightarrow> a \<in> set (balls s) \<and> state (heap s a) = BEING_DRAGGED)
       \<and> fst (start_drag (s\<lparr>dragged_ball := q\<rparr>) mouse_x mouse_y)
           = fst (start_drag s mouse_x mouse_y)"
proof -
  have inv: "game_inv s" using assms by (rule guarded_reachable_inv)
  have iff: "\<And>e. dragged_ball s = Some e \<longleftrightarrow> e \<in> set (balls s) \<and> state (heap s e) = BEING_DRAGGED"
    using inv unfolding game_inv_def by blast
  have ninv: "\<And>e. e \<in> set (inventory s) \<Longrightarrow> state (heap s e) \<noteq> BEING_DRAGGED"
    using inv unfolding game_inv_def by auto
  have ref: "\<And>e. e \<in> set (balls s) \<union> set (inventory s) \<Longrightarrow> state (heap s e) = BEING_DRAGGED \<Longrightarrow>
      dragged_ball s = Some e"
    using iff ninv by blast
  have one: "a \<in> set (balls s) \<union> set (inventory s) \<and> c \<in> set (balls s) \<union> set (inventory s)
          \<and> state (heap s a) = BEING_DRAGGED \<and> state (heap s c) = BEING_DRAGGED \<longrightarrow> a = c"
    using ref [of a] ref [of c] by auto
  have ign: "fst (start_drag (s\<lparr>dragged_ball := q\<rparr>) mouse_x mouse_y)
           = fst (start_drag s mouse_x mouse_y)"
    by (simp add: start_drag_def start_drag_loop_ignores_drag)
  show ?thesis using one ref [of a] iff [of a] ign by blast
qed

theorem drag_invariant_guarded_witness:
  "guarded_reachable (snd (start_drag one_ball 100 100))
   \<and> 0 \<in> set (balls (snd (start_drag one_ball 100 100)))
   \<and> state (heap (snd (start_drag one_ball 100 100)) 0) = BEING_DRAGGED
   \<and> dragged_ball (snd (start_drag one_ball 100 100)) = Some 0"
proof -
  have "guarded_reachable (GameLogic_init 800 600)" by (rule gr_init)
  then have "guarded_reachable one_ball" using two_balls_added(1) by (rule gr_add)
  moreover have "dragged_ball one_ball = None" by (simp add: one_ball_def GameLogic_init_def)
  ultimately have gr: "guarded_reachable (snd (start_drag one_ball 100 100))" by (rule gr_start)
  have mem: "0 \<in> set (balls (snd (start_drag one_ball 100 100)))"
    "state (heap (snd (start_drag one_ball 100 100)) 0) = BEING_DRAGGED"
    by (simp_all add: start_drag_def one_ball_def added_ball_def GameLogic_init_def)
  show ?thesis
    using drag_invariant_guarded [OF gr, where a = 0] gr mem by simp
qed

text \<open>
  Claim C1 as stated fails: two balls are added, the second is picked up, and a further
  \<open>start_drag\<close> over the first ball succeeds while that drag is in progress. Afterwards
  both active entities have state BEING_DRAGGED.
\<close>

theorem start_drag_not_rejected:
  "add_ball (GameLogic_init 800 600) 100 100 20 demo_add = Inr (0, one_ball)
   \<and> add_ball one_ball 300 100 20 demo_add = Inr (1, two_balls)
   \<and> fst (start_drag two_balls 300 100)
   \<and> dragged_ball (snd (start_drag two_balls 300 100)) = Some 1
   \<and> fst (start_drag (snd (start_drag two_balls 300 100)) 100 100)
   \<and> balls (snd (start_drag (snd (start_drag two_balls 300 100)) 100 100)) = [0, 1]
   \<and> state (heap (snd (start_drag (snd (start_drag two_balls 300 100)) 100 100)) 0) = BEING_DRAGGED
   \<and> state (heap (snd (start_drag (snd (start_drag two_balls 300 100)) 100 100)) 1) = BEING_DRAGGED
   \<and> dragged_ball (snd (start_drag (snd (start_drag two_balls 300 100)) 100 100)) = Some 0"
  using two_balls_added
  by (simp add: start_drag_def two_balls_def added_ball_def GameLogic_init_def)


text \<open>
  Claim C2. In a state that satisfies the invariants of the data model, with the entity
  \<open>a\<close> being dragged, \<open>end_drag\<close> has exactly one of three outcomes, decided in this
  order. If the cursor is in the delete band, \<open>a\<close> is removed from the active list (it
  is not in the inventory). Otherwise, if the cursor is within 30 of the inventory point
  \<open>(width - 100, 50)\<close>, \<open>a\<close> is removed from the active list, appended to the
  inventory and set to IN_INVENTORY. Otherwise \<open>a\<close> stays active with state FREE and
  velocity \<open>(cursor - position) * 0.1\<close>. In all three the dragged reference is \<open>None\<close>
  afterwards and nothing else changes.
\<close>

theorem end_drag_outcomes:
  assumes "game_inv s" "dragged_ball s = Some a"
  shows "(is_in_delete_zone s mouse_x mouse_y \<longrightarrow>
            end_drag s mouse_x mouse_y =
              Inr (True, s\<lparr>balls := remove1 a (balls s), dragged_ball := None\<rparr>))
       \<and> (\<not> is_in_delete_zone s mouse_x mouse_y
           \<and> sqrt ((mouse_x - real_of_int (screen_width s - 100))\<^sup>2 + (mouse_y - 50)\<^sup>2) \<le> 30 \<longrightarrow>
            end_drag s mouse_x mouse_y =
              Inr (True, s\<lparr>heap := (heap s)(a := (heap s a)\<lparr>state := IN_INVENTORY\<rparr>),
                           balls := remove1 a (balls s), inventory := inventory s @ [a],
                           dragged_ball := None\<rparr>))
       \<and> (\<not> is_in_delete_zone s mouse_x mouse_y
           \<and> \<not> sqrt ((mouse_x - real_of_int (screen_width s - 100))\<^sup>2 + (mouse_y - 50)\<^sup>2) \<le> 30 \<longrightarrow>
            end_drag s mouse_x mouse_y =
              Inr (False, s\<lparr>heap := (heap s)(a := (heap s a)
                               \<lparr>state := FREE,
                                vx := (mouse_x - x (heap s a)) * (1 / 10),
                                vy := (mouse_y - y (heap s a)) * (1 / 10)\<rparr>),
                            dragged_ball := None\<rparr>))
       \<and> a \<in> set (balls s) \<and> a \<notin> set (remove1 a (balls s)) \<and> a \<notin> set (inventory s)
       \<and> (is_in_delete_zone s mouse_x mouse_y \<longleftrightarrow>
            mouse_y \<ge> real_of_int (delete_zone_y s)
            \<and> mouse_y \<le> real_of_int (delete_zone_y s + delete_zone_height s))"
proof -
  note d = inv_dragged [OF assms]
  have dist: "distinct (balls s)" using assms(1) unfolding game_inv_def by blast
  have gone: "a \<notin> set (remove1 a (balls s))" using dist by simp
  show ?thesis
    using end_drag_result [OF assms, of mouse_x mouse_y] d(1,3) gone
    by (simp add: is_in_delete_zone_def)
qed

theorem end_drag_outcomes_witness:
  "game_inv dragging \<and> dragged_ball dragging = Some 0
   \<and> is_in_delete_zone dragging 100 560
   \<and> end_drag dragging 100 560 = Inr (True, dragging\<lparr>balls := [], dragged_ball := None\<rparr>)
   \<and> \<not> is_in_delete_zone dragging 700 50
   \<and> end_drag dragging 700 50 =
       Inr (True, dragging\<lparr>heap := (heap dragging)(0 := (heap dragging 0)\<lparr>state := IN_INVENTORY\<rparr>),
                           balls := [], inventory := [0], dragged_ball := None\<rparr>)
   \<and> \<not> is_in_delete_zone dragging 700 150
   \<and> end_drag dragging 700 150 =
       Inr (False, dragging\<lparr>heap := (heap dragging)(0 := (heap dragging 0)
                                \<lparr>state := FREE, vx := 60, vy := 5\<rparr>),
                            dragged_ball := None\<rparr>)"
proof -
  have inv: "game_inv dragging"
    by (auto simp: game_inv_def dragging_def demo_ball_def GameLogic_init_def)
  have drg: "dragged_ball dragging = Some 0"
    by (simp add: dragging_def GameLogic_init_def)
  have vals: "balls dragging = [0]" "inventory dragging = []" "screen_width dragging = 800"
    "delete_zone_y dragging = 550" "delete_zone_height dragging = 50"
    "x (heap dragging 0) = 100" "y (heap dragging 0) = 100"
    by (simp_all add: dragging_def demo_ball_def GameLogic_init_def)
  show ?thesis
    using end_drag_outcomes [OF inv drg, of 100 560] end_drag_outcomes [OF inv drg, of 700 50]
      end_drag_outcomes [OF inv drg, of 700 150] inv drg
    by (simp add: vals sqrt_le_30)
qed


section \<open>Identity of entities\<close>

lemma delete_ball_heap:
  "delete_ball s a = Inr s1 \<Longrightarrow> heap s1 = heap s"
  by (auto simp: delete_ball_def split: sum.splits if_splits)

lemma add_to_inventory_heap:
  "add_to_inventory s a = Inr s1 \<Longrightarrow> heap s1 = (heap s)(a := (heap s a)\<lparr>state := IN_INVENTORY\<rparr>)"
  by (auto simp: add_to_inventory_def Let_def upd_def split: sum.splits)

lemma id_end:
  assumes "end_drag s mouse_x mouse_y = Inr (ok, s')"
  shows "ball_id (heap s' c) = ball_id (heap s c)"
proof (cases "dragged_ball s")
  case None
  then show ?thesis using assms by (simp add: end_drag_def)
next
  case (Some a)
  show ?thesis
  proof (cases "is_in_delete_zone s mouse_x mouse_y")
    case True
    then obtain s1 where "delete_ball s a = Inr s1" "s' = s1\<lparr>dragged_ball := None\<rparr>"
      using assms Some by (auto simp: end_drag_def split: sum.splits)
    then show ?thesis using delete_ball_heap [of s a s1] by simp
  next
    case False
    show ?thesis
    proof (cases "sqrt ((mouse_x - real_of_int (screen_width s - 100))\<^sup>2 + (mouse_y - 50)\<^sup>2) \<le> 30")
      case True
      then obtain s1 where "add_to_inventory s a = Inr s1" "s' = s1\<lparr>dragged_ball := None\<rparr>"
        using assms Some False by (auto simp: end_drag_def Let_def split: sum.splits)
      then show ?thesis using add_to_inventory_heap [of s a s1] by simp
    next
      case far: False
      then show ?thesis
        using assms Some False by (auto simp: end_drag_def Let_def)
    qed
  qed
qed

lemma id_start: "ball_id (heap (snd (start_drag s mouse_x mouse_y)) c) = ball_id (heap s c)"
  using start_drag_cases [of s mouse_x mouse_y] by auto

lemma id_drag: "ball_id (heap (drag_ball s mouse_x mouse_y) c) = ball_id (heap s c)"
  by (simp add: drag_ball_def Let_def split: option.splits)

lemma id_eject: "ball_id (heap (snd (eject_ball_from_inventory s i d)) c) = ball_id (heap s c)"
  by (cases "0 \<le> i \<and> i < int (length (inventory s))") (simp_all add: eject_ok eject_fail)

lemma id_update: "ball_id (heap (update s dt) c) = ball_id (heap s c)"
  using frame_update [of s dt] by (simp add: frame_def)

lemma randint_id_range: "1000 \<le> randint 1000 9999 k \<and> randint 1000 9999 k \<le> 9999"
proof -
  have "0 \<le> k mod 9000" "k mod 9000 < 9000" by simp_all
  then show ?thesis by (simp add: randint_def)
qed

lemma id_add:
  assumes "add_ball s x0 y0 radius0 d = Inr (a, s')"
  shows "a = next_ref s" "next_ref s' = Suc (next_ref s)"
    "ball_id (heap s' a) = randint 1000 9999 (k_id d)"
    "c \<noteq> a \<Longrightarrow> heap s' c = heap s c"
  using assms by (auto simp: add_ball_def Let_def Ball_init_def split: sum.splits)

text \<open>
  Claim C9, as the code has it. \<open>add_ball\<close> gives the new entity an id drawn from
  \<open>[1000, 9999]\<close> and leaves the ids of all other objects alone; no other operation
  changes the id of any object. Nothing makes the ids of different entities differ.
\<close>

theorem ball_id_assigned_once:
  "(add_ball s x0 y0 radius0 d = Inr (a, s') \<longrightarrow>
      a = next_ref s \<and> 1000 \<le> ball_id (heap s' a) \<and> ball_id (heap s' a) \<le> 9999
      \<and> (c \<noteq> a \<longrightarrow> ball_id (heap s' c) = ball_id (heap s c)))
   \<and> ball_id (heap (update s dt) c) = ball_id (heap s c)
   \<and> ball_id (heap (snd (start_drag s mouse_x mouse_y)) c) = ball_id (heap s c)
   \<and> ball_id (heap (drag_ball s mouse_x mouse_y) c) = ball_id (heap s c)
   \<and> (end_drag s mouse_x mouse_y = Inr (ok, s'') \<longrightarrow> ball_id (heap s'' c) = ball_id (heap s c))
   \<and> ball_id (heap (snd (eject_ball_from_inventory s i e)) c) = ball_id (heap s c)
   \<and> ball_id (heap (clear_all_balls s) c) = ball_id (heap s c)"
proof -
  have add: "add_ball s x0 y0 radius0 d = Inr (a, s') \<longrightarrow>
      a = next_ref s \<and> 1000 \<le> ball_id (heap s' a) \<and> ball_id (heap s' a) \<le> 9999
      \<and> (c \<noteq> a \<longrightarrow> ball_id (heap s' c) = ball_id (heap s c))"
  proof
    assume ab: "add_ball s x0 y0 radius0 d = Inr (a, s')"
    show "a = next_ref s \<and> 1000 \<le> ball_id (heap s' a) \<and> ball_id (heap s' a) \<le> 9999
      \<and> (c \<noteq> a \<longrightarrow> ball_id (heap s' c) = ball_id (heap s c))"
      using id_add(1) [OF ab] id_add(3) [OF ab] id_add(4) [OF ab, of c]
        randint_id_range [of "k_id d"] by auto
  qed
  show ?thesis
    using add id_end [of s mouse_x mouse_y ok s'' c]
    by (simp add: id_update id_start id_drag id_eject clear_all_balls_def)
qed

theorem ball_id_assigned_once_witness:
  "add_ball one_ball 300 100 20 demo_add = Inr (1, two_balls)
   \<and> 1 = next_ref one_ball
   \<and> 1000 \<le> ball_id (heap two_balls 1) \<and> ball_id (heap two_balls 1) \<le> 9999
   \<and> ball_id (heap two_balls 0) = ball_id (heap one_ball 0)
   \<and> end_drag one_ball 5 5 = Inr (False, one_ball)
   \<and> ball_id (heap (update one_ball 1) 0) = 1234"
proof -
  have e: "end_drag one_ball 5 5 = Inr (False, one_ball)"
    by (simp add: end_drag_def one_ball_def GameLogic_init_def)
  have i: "ball_id (heap one_ball 0) = 1234" "next_ref one_ball = 1"
    by (simp_all add: one_ball_def added_ball_def GameLogic_init_def)
  show ?thesis
    using ball_id_assigned_once [where s = one_ball and ?x0.0 = 300 and ?y0.0 = 100
        and ?radius0.0 = 20 and d = demo_add and a = 1 and s' = two_balls and c = 0
        and mouse_x = 5 and mouse_y = 5 and ok = False and s'' = one_ball and dt = 1]
      two_balls_added(2) e
    by (simp add: i)
qed

text \<open>
  Claim C9 as stated fails: two calls of \<open>add_ball\<close> that receive the same draw for the id
  leave two active entities with the same id.
\<close>

theorem ball_id_not_unique:
  "add_ball (GameLogic_init 800 600) 100 100 20 demo_add = Inr (0, one_ball)
   \<and> add_ball one_ball 300 100 20 demo_add = Inr (1, two_balls)
   \<and> balls two_balls = [0, 1]
   \<and> ball_id (heap two_balls 0) = ball_id (heap two_balls 1)"
  using two_balls_added
  by (simp add: two_balls_def added_ball_def GameLogic_init_def)

end
